theory Spec2Isabelle
  imports Complex_Main "HOL-Library.Product_Lexorder"
begin

section \<open>JavaScript values and the remainder operator\<close>

text \<open>
  Survey ids travel through the service as plain JavaScript values: the database driver
  delivers an integer column as a number, a bigint column as a string, and nothing stops a
  caller from handing over \<open>null\<close> or \<open>undefined\<close>. A number that is not an integer
  (a fraction, \<open>NaN\<close>, an infinity) is carried by its canonical printing, which is all the
  code ever does with it (\<open>toString\<close>, key identity, \<open>Number.isInteger\<close>).
\<close>

datatype js_value =
    JInt int
  | JFloat string
  | JStr string
  | JNull
  | JUndefined

text \<open>\<open>Number.isInteger(x)\<close>: true for integral numbers only, never for another type.\<close>

fun Number_isInteger :: "js_value \<Rightarrow> bool" where
  "Number_isInteger (JInt n) = True"
| "Number_isInteger v = False"

text \<open>
  The remainder operator \<open>%\<close> truncates towards zero: the result has the sign of the
  dividend. In JavaScript \<open>a % 0\<close> is \<open>NaN\<close> (here \<open>None\<close>), which is \<open>===\<close> to
  nothing. PostgreSQL's integer \<open>%\<close> truncates the same way and raises
  \<open>division_by_zero\<close> (here \<open>None\<close>) for a zero divisor.
\<close>

definition trunc_rem :: "int \<Rightarrow> int \<Rightarrow> int" where
  "trunc_rem a b = sgn a * (\<bar>a\<bar> mod \<bar>b\<bar>)"

definition js_rem :: "int \<Rightarrow> int \<Rightarrow> int option" where
  "js_rem a b = (if b = 0 then None else Some (trunc_rem a b))"

definition sql_rem :: "int \<Rightarrow> int \<Rightarrow> int option" where
  "sql_rem a b = (if b = 0 then None else Some (trunc_rem a b))"

section \<open>ShardingManager: the partition predicate\<close>

text \<open>
  \<^verbatim>\<open>static shouldProcessId(id, shardIndex, totalShards) {
      const zeroBasedIndex = shardIndex - 1;
      return (id % totalShards) === zeroBasedIndex; }\<close>
\<close>

definition shouldProcessId :: "int \<Rightarrow> int \<Rightarrow> int \<Rightarrow> bool" where
  "shouldProcessId idn shardIndex totalShards =
     (let zeroBasedIndex = shardIndex - 1
      in js_rem idn totalShards = Some zeroBasedIndex)"

text \<open>
  The shard condition of the claim query, \<^verbatim>\<open>(sr.id % $2) = ($1 - 1)\<close> with
  \<open>$1 = shardIndex\<close> and \<open>$2 = totalShards\<close>. \<open>None\<close> is the query failing with
  \<open>division_by_zero\<close>.
\<close>

definition sql_shard_condition :: "int \<Rightarrow> int \<Rightarrow> int \<Rightarrow> bool option" where
  "sql_shard_condition sr_id shardIndex totalShards =
     (case sql_rem sr_id totalShards of
        None \<Rightarrow> None
      | Some r \<Rightarrow> Some (r = shardIndex - 1))"

record shard_info =
  shardIndex :: int
  totalShards :: int

text \<open>
  \<open>getExampleIds(maxExamples)\<close>: the \<open>for\<close> loop from \<open>i = 1\<close> to
  \<open>maxExamples * totalShards\<close>, pushing every id the predicate accepts and leaving the
  loop once \<open>maxExamples\<close> ids are collected.
\<close>

function getExampleIds_loop :: "int \<Rightarrow> int \<Rightarrow> int \<Rightarrow> int \<Rightarrow> int list \<Rightarrow> int list" where
  "getExampleIds_loop sIndex tShards maxExamples i examples =
     (if i \<le> maxExamples * tShards then
        (if shouldProcessId i sIndex tShards then
           (let examples' = examples @ [i]
            in if int (length examples') \<ge> maxExamples then examples'
               else getExampleIds_loop sIndex tShards maxExamples (i + 1) examples')
         else getExampleIds_loop sIndex tShards maxExamples (i + 1) examples)
      else examples)"
  by pat_completeness auto
termination
  by (relation "measure (\<lambda>(sIndex, tShards, maxExamples, i, examples).
        nat (maxExamples * tShards + 1 - i))") auto

declare getExampleIds_loop.simps [simp del]

text \<open>
  \<open>getShardInfo()\<close> is awaited inside a \<open>try\<close>; when it throws, the method logs and
  returns \<open>[]\<close>. Its outcome is the first argument.
\<close>

definition getExampleIds :: "'e + shard_info \<Rightarrow> int \<Rightarrow> int list" where
  "getExampleIds info maxExamples =
     (case info of
        Inl err \<Rightarrow> []
      | Inr si \<Rightarrow> getExampleIds_loop (shardIndex si) (totalShards si) maxExamples 1 [])"

section \<open>Strings, errors and Map objects\<close>

text \<open>\<open>s.includes(p)\<close>: \<open>p\<close> occurs in \<open>s\<close> as a contiguous run of characters.\<close>

fun starts_with :: "string \<Rightarrow> string \<Rightarrow> bool" where
  "starts_with s [] = True"
| "starts_with [] (p # ps) = False"
| "starts_with (c # cs) (p # ps) = (c = p \<and> starts_with cs ps)"

fun String_includes :: "string \<Rightarrow> string \<Rightarrow> bool" where
  "String_includes [] p = (p = [])"
| "String_includes (c # cs) p = (starts_with (c # cs) p \<or> String_includes cs p)"

text \<open>
  The decimal digits of an integer. This is how the runtime prints an integral number
  whose magnitude is below \<open>1e21\<close>; beyond that it prints in exponent form. How a
  number prints is the runtime's business, so the functions below take the printing as
  an argument, \<open>numText\<close>; \<open>show_int\<close> is one, right for survey ids.
\<close>

function show_nat :: "nat \<Rightarrow> string" where
  "show_nat n =
     (if n < 10 then [''0123456789'' ! n]
      else show_nat (n div 10) @ [''0123456789'' ! (n mod 10)])"
  by pat_completeness auto
termination
  by (relation "measure (\<lambda>n. n)") auto

declare show_nat.simps [simp del]

definition show_int :: "int \<Rightarrow> string" where
  "show_int n = (if n < 0 then CHR ''-'' # show_nat (nat (- n)) else show_nat (nat n))"

text \<open>
  A thrown value. The code reads three properties of it: \<open>error.status\<close> (the HTTP status
  the SDK attaches), \<open>error.message\<close> and \<open>error.code\<close> (the SQLSTATE the driver
  attaches). A status or code that is absent or of another type is \<open>None\<close>. The message
  is tested by \<open>error.message && error.message.includes(...)\<close>, so three kinds matter:
  a falsy value (absent, \<open>null\<close>, \<open>0\<close>; the empty string is \<open>Text []\<close>), a string, and
  a truthy value that is not a string and has no \<open>includes\<close> method (a number, \<open>true\<close>, a
  plain object), on which the call \<open>error.message.includes\<close> itself throws.
\<close>

datatype js_message = NoMessage | Text string | NotText

record js_error =
  status :: "int option"
  message :: js_message
  code :: "string option"

text \<open>\<open>new Error(msg)\<close> and the \<open>TypeError\<close> of a property read on \<open>null\<close>/\<open>undefined\<close>.\<close>

definition Error :: "string \<Rightarrow> js_error" where
  "Error msg = \<lparr>status = None, message = Text msg, code = None\<rparr>"

definition TypeError :: "string \<Rightarrow> js_error" where
  "TypeError msg = \<lparr>status = None, message = Text msg, code = None\<rparr>"

text \<open>\<open>x.toString()\<close> throws on \<open>null\<close> and \<open>undefined\<close>; a template literal prints them.\<close>

fun js_toString :: "(int \<Rightarrow> string) \<Rightarrow> js_value \<Rightarrow> js_error + string" where
  "js_toString numText (JInt n) = Inr (numText n)"
| "js_toString numText (JFloat s) = Inr s"
| "js_toString numText (JStr s) = Inr s"
| "js_toString numText JNull =
     Inl (TypeError ''Cannot read properties of null (reading 'toString')'')"
| "js_toString numText JUndefined =
     Inl (TypeError ''Cannot read properties of undefined (reading 'toString')'')"

fun js_template :: "(int \<Rightarrow> string) \<Rightarrow> js_value \<Rightarrow> string" where
  "js_template numText (JInt n) = numText n"
| "js_template numText (JFloat s) = s"
| "js_template numText (JStr s) = s"
| "js_template numText JNull = ''null''"
| "js_template numText JUndefined = ''undefined''"

text \<open>
  \<open>error.message && error.message.includes(p)\<close> as a condition: false on a falsy
  message, the substring test on a string, a \<open>TypeError\<close> thrown on anything else.
\<close>

definition message_includes :: "js_message \<Rightarrow> string \<Rightarrow> js_error + bool" where
  "message_includes m p =
     (case m of
        NoMessage \<Rightarrow> Inr False
      | Text t \<Rightarrow> Inr (t \<noteq> [] \<and> String_includes t p)
      | NotText \<Rightarrow> Inl (TypeError ''error.message.includes is not a function''))"

text \<open>
  A JavaScript \<open>Map\<close> keeps its entries in insertion order with one entry per key: an
  association list. \<open>set\<close> overwrites in place or appends; \<open>delete\<close> drops the key.
\<close>

type_synonym ('k, 'v) js_map = "('k \<times> 'v) list"

definition jsmap_has :: "('k, 'v) js_map \<Rightarrow> 'k \<Rightarrow> bool" where
  "jsmap_has m k = (map_of m k \<noteq> None)"

definition jsmap_get :: "('k, 'v) js_map \<Rightarrow> 'k \<Rightarrow> 'v option" where
  "jsmap_get m k = map_of m k"

fun jsmap_set :: "'k \<Rightarrow> 'v \<Rightarrow> ('k, 'v) js_map \<Rightarrow> ('k, 'v) js_map" where
  "jsmap_set k v [] = [(k, v)]"
| "jsmap_set k v ((k', v') # m) =
     (if k' = k then (k, v) # m else (k', v') # jsmap_set k v m)"

definition jsmap_delete :: "'k \<Rightarrow> ('k, 'v) js_map \<Rightarrow> ('k, 'v) js_map" where
  "jsmap_delete k m = filter (\<lambda>(k', v). k' \<noteq> k) m"

definition jsmap_keys :: "('k, 'v) js_map \<Rightarrow> 'k list" where
  "jsmap_keys m = map fst m"

text \<open>The Map invariant: no key occurs twice.\<close>

definition jsmap_ok :: "('k, 'v) js_map \<Rightarrow> bool" where
  "jsmap_ok m = distinct (map fst m)"

section \<open>RetellClient: the in-flight tracking maps\<close>

record survey_data =
  survey_id :: js_value
  customer_name :: string
  client_phone_number :: string
  client_email :: string
  business_type :: string
  revenue :: string
  operational_frustration :: string
  inefficiencies :: string
  one_task_to_automate :: string
  important_outcome :: string
  survey_date :: string

record dynamic_variables =
  dv_name :: string
  dv_phone_number :: string
  dv_email :: string
  dv_service :: string
  dv_budget :: string
  dv_frustration :: string
  dv_inefficiencies :: string
  dv_priority_automation :: string
  dv_important_outcome :: string
  dv_survey_date :: string

record call_payload =
  from_number :: string
  to_number :: string
  retell_llm_dynamic_variables :: dynamic_variables
  metadata_survey_id :: string
  override_agent_id :: string

record phone_call_response =
  call_id :: string
  agent_id :: string

text \<open>The values of \<open>activeCalls\<close> (keyed by call id) and \<open>activeSurveys\<close> (keyed by survey id).\<close>

record call_info =
  surveyId :: js_value
  createdAt :: int
  customerName :: string
  phoneNumber :: string

record survey_info =
  callId :: string
  createdAt :: int
  customerName :: string
  phoneNumber :: string

record RetellClient =
  fromNumber :: string
  agentId :: string
  activeCalls :: "(string, call_info) js_map"
  activeSurveys :: "(js_value, survey_info) js_map"

definition isSurveyBeingProcessed :: "RetellClient \<Rightarrow> js_value \<Rightarrow> bool" where
  "isSurveyBeingProcessed this sid = jsmap_has (activeSurveys this) sid"

text \<open>
  \<open>createPhoneCall(surveyData)\<close>. The outside world enters through three arguments:
  \<open>numText\<close>, the runtime's printing of numbers, \<open>api\<close>, the answer of the Retell
  service to the request (\<open>Inl\<close> when the SDK call rejects), and \<open>now\<close>, the clock
  read by \<open>new Date()\<close> in milliseconds. The duplicate check comes
  before the \<open>try\<close> and throws without touching either map; inside the \<open>try\<close> the payload
  is built (\<open>surveyId.toString()\<close> may throw), the request is sent, and only after it
  succeeded are both maps written. The \<open>catch\<close> logs and rethrows.
\<close>

definition createPhoneCall ::
  "(int \<Rightarrow> string) \<Rightarrow> (call_payload \<Rightarrow> js_error + phone_call_response) \<Rightarrow> int
     \<Rightarrow> survey_data \<Rightarrow> RetellClient \<Rightarrow> (js_error + phone_call_response) \<times> RetellClient" where
  "createPhoneCall numText api now surveyData this =
     (let sid = survey_id surveyData in
      if isSurveyBeingProcessed this sid then
        (Inl (Error (''Survey '' @ js_template numText sid @ '' is already being processed'')),
         this)
      else
        (case js_toString numText sid of
           Inl typeError \<Rightarrow> (Inl typeError, this)
         | Inr sidText \<Rightarrow>
             (let callPayload =
                    \<lparr>from_number = fromNumber this,
                     to_number = client_phone_number surveyData,
                     retell_llm_dynamic_variables =
                       \<lparr>dv_name = customer_name surveyData,
                        dv_phone_number = client_phone_number surveyData,
                        dv_email = client_email surveyData,
                        dv_service = business_type surveyData,
                        dv_budget = revenue surveyData,
                        dv_frustration = operational_frustration surveyData,
                        dv_inefficiencies = inefficiencies surveyData,
                        dv_priority_automation = one_task_to_automate surveyData,
                        dv_important_outcome = important_outcome surveyData,
                        dv_survey_date = survey_date surveyData\<rparr>,
                     metadata_survey_id = sidText,
                     override_agent_id = agentId this\<rparr>
              in case api callPayload of
                   Inl error \<Rightarrow> (Inl error, this)
                 | Inr phoneCallResponse \<Rightarrow>
                     (Inr phoneCallResponse,
                      this\<lparr>activeCalls :=
                             jsmap_set (call_id phoneCallResponse)
                               \<lparr>surveyId = sid, createdAt = now,
                                customerName = customer_name surveyData,
                                phoneNumber = client_phone_number surveyData\<rparr>
                               (activeCalls this),
                           activeSurveys :=
                             jsmap_set sid
                               \<lparr>callId = call_id phoneCallResponse, createdAt = now,
                                customerName = customer_name surveyData,
                                phoneNumber = client_phone_number surveyData\<rparr>
                               (activeSurveys this)\<rparr>))))"

text \<open>
  \<open>cleanupOldCalls(maxAgeMs)\<close>. Two passes collect the keys whose entry is older than
  \<open>maxAgeMs\<close> (\<open>now - createdAt > maxAgeMs\<close>), two more delete them, each deletion
  writing one warning record; a summary record follows when anything was removed. The
  method has no \<open>return\<close> statement: its value is \<open>undefined\<close>, here \<open>None\<close> in the type
  of a pair of entry lists. Every key to delete was read from the same Map a moment
  before, so the \<open>get\<close> in the deletion passes finds its entry.
\<close>

datatype cleanup_log =
    CleanedCall string js_value int
  | CleanedSurvey js_value string int
  | CleanedSummary nat nat

type_synonym evicted =
  "(string \<times> call_info) list \<times> (js_value \<times> survey_info) list"

definition remove_old_calls ::
  "int \<Rightarrow> string list \<Rightarrow> (string, call_info) js_map
     \<Rightarrow> (string, call_info) js_map \<times> cleanup_log list" where
  "remove_old_calls now callsToRemove calls =
     fold (\<lambda>cid (m, lg).
             (case jsmap_get m cid of
                None \<Rightarrow> (m, lg)
              | Some callInfo \<Rightarrow>
                  (jsmap_delete cid m,
                   lg @ [CleanedCall cid (surveyId callInfo)
                           (now - call_info.createdAt callInfo)])))
          callsToRemove (calls, [])"

definition remove_old_surveys ::
  "int \<Rightarrow> js_value list \<Rightarrow> (js_value, survey_info) js_map
     \<Rightarrow> (js_value, survey_info) js_map \<times> cleanup_log list" where
  "remove_old_surveys now surveysToRemove surveys =
     fold (\<lambda>sid (m, lg).
             (case jsmap_get m sid of
                None \<Rightarrow> (m, lg)
              | Some surveyInfo \<Rightarrow>
                  (jsmap_delete sid m,
                   lg @ [CleanedSurvey sid (callId surveyInfo)
                           (now - survey_info.createdAt surveyInfo)])))
          surveysToRemove (surveys, [])"

definition cleanupOldCalls ::
  "int \<Rightarrow> int \<Rightarrow> RetellClient \<Rightarrow> evicted option \<times> RetellClient \<times> cleanup_log list" where
  "cleanupOldCalls maxAgeMs now this =
     (let callsToRemove =
            map fst (filter (\<lambda>(cid, callInfo). now - call_info.createdAt callInfo > maxAgeMs)
                       (activeCalls this));
          surveysToRemove =
            map fst (filter (\<lambda>(sid, surveyInfo).
                         now - survey_info.createdAt surveyInfo > maxAgeMs)
                       (activeSurveys this));
          (calls', log1) = remove_old_calls now callsToRemove (activeCalls this);
          (surveys', log2) = remove_old_surveys now surveysToRemove (activeSurveys this);
          summary =
            (if length callsToRemove > 0 \<or> length surveysToRemove > 0
             then [CleanedSummary (length callsToRemove) (length surveysToRemove)] else [])
      in (None, this\<lparr>activeCalls := calls', activeSurveys := surveys'\<rparr>,
          log1 @ log2 @ summary))"

section \<open>Retry with exponential backoff\<close>

text \<open>
  The three retry helpers (\<open>RetellClient.withRetry\<close>, \<open>DatabaseClient.withRetry\<close>,
  \<open>RetellCaller.retryOperation\<close>) are the same loop; they differ only in the test that
  rethrows at once:
  \<^verbatim>\<open>for (let attempt = 1; attempt <= maxRetries; attempt++) {
      try { return await operation(); }
      catch (error) {
          lastError = error;
          if (<no-retry test>) throw error;
          if (attempt === maxRetries) break;
          const delay = baseDelay * Math.pow(2, attempt - 1) + Math.random() * 1000;
          await new Promise(resolve => setTimeout(resolve, delay));
      } }
  throw lastError;\<close>
  The test either says whether to rethrow at once or throws itself (\<open>Inl\<close>), in which
  case that error leaves the loop instead. The operation works on a state \<open>'s\<close> and
  either returns or throws. \<open>rnd attempt\<close> is
  the value \<open>Math.random()\<close> yields in that attempt. The loop's observable steps are
  recorded: \<open>Invoked attempt\<close> for each call of the operation, \<open>Slept delay\<close> for each
  timer. The thrown value is \<open>Some error\<close>, or \<open>None\<close> for the \<open>undefined\<close> that
  \<open>lastError\<close> still holds when the loop body never ran.
\<close>

datatype retry_event = Invoked int | Slept real

function retry_loop ::
  "('e \<Rightarrow> 'e + bool) \<Rightarrow> ('s \<Rightarrow> ('e + 'a) \<times> 's) \<Rightarrow> int \<Rightarrow> real \<Rightarrow> (int \<Rightarrow> real)
     \<Rightarrow> int \<Rightarrow> 'e option \<Rightarrow> 's \<Rightarrow> ('e option + 'a) \<times> 's \<times> retry_event list" where
  "retry_loop noRetry operation maxRetries baseDelay rnd attempt lastError s =
     (if attempt \<le> maxRetries then
        (case operation s of
           (Inr v, s') \<Rightarrow> (Inr v, s', [Invoked attempt])
         | (Inl error, s') \<Rightarrow>
             (case noRetry error of
                Inl testError \<Rightarrow> (Inl (Some testError), s', [Invoked attempt])
              | Inr rethrow \<Rightarrow>
                  (if rethrow then (Inl (Some error), s', [Invoked attempt])
                   else if attempt = maxRetries then (Inl (Some error), s', [Invoked attempt])
                   else
                     (let delay = baseDelay * 2 ^ nat (attempt - 1) + rnd attempt * 1000;
                          (r, s'', evs) =
                            retry_loop noRetry operation maxRetries baseDelay rnd
                              (attempt + 1) (Some error) s'
                      in (r, s'', Invoked attempt # Slept delay # evs)))))
      else (Inl lastError, s, []))"
  by pat_completeness auto
termination
  by (relation "measure (\<lambda>(noRetry, operation, maxRetries, baseDelay, rnd, attempt, lastError, s).
        nat (maxRetries + 1 - attempt))") auto

declare retry_loop.simps [simp del]

text \<open>
  \<open>RetellClient.withRetry\<close>:
  \<^verbatim>\<open>if (error.status === 400 || error.status === 401 || error.status === 403) throw error;
  if (error.message && error.message.includes('already being processed')) throw error;\<close>
\<close>

definition permanent_status :: "js_error \<Rightarrow> bool" where
  "permanent_status error =
     (status error = Some 400 \<or> status error = Some 401 \<or> status error = Some 403)"

definition already_being_processed :: "js_error \<Rightarrow> js_error + bool" where
  "already_being_processed error =
     message_includes (message error) ''already being processed''"

definition withRetry_noRetry :: "js_error \<Rightarrow> js_error + bool" where
  "withRetry_noRetry error =
     (if permanent_status error then Inr True else already_being_processed error)"

definition withRetry ::
  "('s \<Rightarrow> (js_error + 'a) \<times> 's) \<Rightarrow> int \<Rightarrow> real \<Rightarrow> (int \<Rightarrow> real) \<Rightarrow> 's
     \<Rightarrow> (js_error option + 'a) \<times> 's \<times> retry_event list" where
  "withRetry operation maxRetries baseDelay rnd s =
     retry_loop withRetry_noRetry operation maxRetries baseDelay rnd 1 None s"

text \<open>
  \<open>DatabaseClient.withRetry\<close>:
  \<^verbatim>\<open>if (error.code === '23505' || error.code === '23503') throw error;\<close>
\<close>

definition constraint_violation :: "js_error \<Rightarrow> bool" where
  "constraint_violation error = (code error = Some ''23505'' \<or> code error = Some ''23503'')"

definition db_withRetry_noRetry :: "js_error \<Rightarrow> js_error + bool" where
  "db_withRetry_noRetry error = Inr (constraint_violation error)"

definition db_withRetry ::
  "('s \<Rightarrow> (js_error + 'a) \<times> 's) \<Rightarrow> int \<Rightarrow> real \<Rightarrow> (int \<Rightarrow> real) \<Rightarrow> 's
     \<Rightarrow> (js_error option + 'a) \<times> 's \<times> retry_event list" where
  "db_withRetry operation maxRetries baseDelay rnd s =
     retry_loop db_withRetry_noRetry operation maxRetries baseDelay rnd 1 None s"

text \<open>\<open>RetellCaller.retryOperation\<close>: no error is exempt from retrying.\<close>

definition retryOperation ::
  "('s \<Rightarrow> (js_error + 'a) \<times> 's) \<Rightarrow> int \<Rightarrow> real \<Rightarrow> (int \<Rightarrow> real) \<Rightarrow> 's
     \<Rightarrow> (js_error option + 'a) \<times> 's \<times> retry_event list" where
  "retryOperation operation maxRetries baseDelay rnd s =
     retry_loop (\<lambda>error. Inr False) operation maxRetries baseDelay rnd 1 None s"

text \<open>
  What the claims say about the loop, as functions of the attempt number: the delay before
  jitter, and the trace of a run that ends with attempt \<open>n\<close> (every earlier attempt
  failed and was followed by one sleep).
\<close>

definition backoff :: "real \<Rightarrow> int \<Rightarrow> real" where
  "backoff baseDelay attempt = baseDelay * 2 ^ nat (attempt - 1)"

fun retry_trace :: "real \<Rightarrow> (int \<Rightarrow> real) \<Rightarrow> int \<Rightarrow> nat \<Rightarrow> retry_event list" where
  "retry_trace baseDelay rnd attempt 0 = [Invoked attempt]"
| "retry_trace baseDelay rnd attempt (Suc k) =
     Invoked attempt # Slept (backoff baseDelay attempt + rnd attempt * 1000)
       # retry_trace baseDelay rnd (attempt + 1) k"

fun is_invocation :: "retry_event \<Rightarrow> bool" where
  "is_invocation (Invoked k) = True"
| "is_invocation (Slept d) = False"

definition invocations :: "retry_event list \<Rightarrow> nat" where
  "invocations evs = length (filter is_invocation evs)"

definition sleeps :: "retry_event list \<Rightarrow> real list" where
  "sleeps evs = concat (map (\<lambda>ev. case ev of Invoked k \<Rightarrow> [] | Slept d \<Rightarrow> [d]) evs)"

section \<open>RetellCaller: dispatching one survey\<close>

text \<open>
  \<open>processSingleSurvey(surveyData)\<close> never throws to its caller on a dispatch failure; what
  it does instead is told by its log records, which the outcome names: the guard's debug
  record and early return, the success record, and in the \<open>catch\<close> block either the debug
  record of a duplicate (early return) or the error record, with a further warning for the
  statuses 400, 401 and 403. A thrown \<open>undefined\<close> makes \<open>error.message\<close> throw out
  of the \<open>catch\<close> block, and so does a message on which \<open>includes\<close> cannot be called.
\<close>

datatype survey_outcome =
    SkippedAlreadyTracked
  | CallCreated phone_call_response
  | SkippedDuplicate
  | FailureLogged js_error bool
  | CatchBlockThrew

definition processSingleSurvey_catch :: "js_error option \<Rightarrow> survey_outcome" where
  "processSingleSurvey_catch thrown =
     (case thrown of
        None \<Rightarrow> CatchBlockThrew
      | Some error \<Rightarrow>
          (case already_being_processed error of
             Inl testError \<Rightarrow> CatchBlockThrew
           | Inr duplicate \<Rightarrow>
               if duplicate then SkippedDuplicate
               else FailureLogged error (permanent_status error)))"

text \<open>
  The world the dispatch runs in: the client's maps and the number of times
  \<open>createPhoneCall\<close> has run so far, which selects what the Retell service would answer
  and what the clock reads in that run.
\<close>

record dispatch_world =
  client :: RetellClient
  calls_made :: nat

definition dispatch_operation ::
  "(int \<Rightarrow> string) \<Rightarrow> (nat \<Rightarrow> call_payload \<Rightarrow> js_error + phone_call_response) \<Rightarrow> (nat \<Rightarrow> int)
     \<Rightarrow> survey_data \<Rightarrow> dispatch_world
     \<Rightarrow> (js_error + phone_call_response) \<times> dispatch_world" where
  "dispatch_operation numText api clock surveyData w =
     (let (r, c') =
            createPhoneCall numText (api (calls_made w)) (clock (calls_made w)) surveyData
              (client w)
      in (r, \<lparr>client = c', calls_made = Suc (calls_made w)\<rparr>))"

definition processSingleSurvey ::
  "(int \<Rightarrow> string) \<Rightarrow> (nat \<Rightarrow> call_payload \<Rightarrow> js_error + phone_call_response) \<Rightarrow> (nat \<Rightarrow> int)
     \<Rightarrow> (int \<Rightarrow> real) \<Rightarrow> survey_data \<Rightarrow> dispatch_world
     \<Rightarrow> survey_outcome \<times> dispatch_world \<times> retry_event list" where
  "processSingleSurvey numText api clock rnd surveyData w =
     (if isSurveyBeingProcessed (client w) (survey_id surveyData)
      then (SkippedAlreadyTracked, w, [])
      else
        (case withRetry (dispatch_operation numText api clock surveyData) 3 2000 rnd w of
           (Inr callResponse, w', evs) \<Rightarrow> (CallCreated callResponse, w', evs)
         | (Inl thrown, w', evs) \<Rightarrow> (processSingleSurvey_catch thrown, w', evs)))"

section \<open>DatabaseClient: claiming the next survey response\<close>

text \<open>
  The two tables, with the columns the claim query tests or orders by; the remaining
  selected columns are carried along in \<open>sr_columns\<close>. A nullable column is an option.
  \<open>created_at\<close> is a timestamp in milliseconds. Row locks held by other transactions are
  part of the database state.
\<close>

record 'p survey_response =
  sr_id :: int
  sr_customer_id :: "int option"
  sr_operational_frustration :: "string option"
  sr_created_at :: "int option"
  sr_processed :: "bool option"
  sr_data_sent_to_retell :: "bool option"
  sr_columns :: 'p

record customer =
  c_id :: int
  c_name :: "string option"
  c_email :: "string option"
  c_phone_number :: "string option"
  c_phone_number_validated :: "bool option"

record 'p database =
  survey_responses :: "'p survey_response list"
  customers :: "customer list"
  locked_survey_responses :: "int list"
  locked_customers :: "int list"

text \<open>
  \<open>x ILIKE '%p%'\<close> for a lower-case \<open>p\<close> without wildcards: \<open>p\<close> occurs in \<open>x\<close> when
  case is ignored (for the letters A to Z); on \<open>NULL\<close> it is not true.
\<close>

definition to_lower :: "char \<Rightarrow> char" where
  "to_lower c =
     (case map_of (zip ''ABCDEFGHIJKLMNOPQRSTUVWXYZ'' ''abcdefghijklmnopqrstuvwxyz'') c of
        None \<Rightarrow> c
      | Some l \<Rightarrow> l)"

definition ilike_contains :: "string option \<Rightarrow> string \<Rightarrow> bool" where
  "ilike_contains x p =
     (case x of None \<Rightarrow> False | Some t \<Rightarrow> String_includes (map to_lower t) p)"

text \<open>The \<open>CASE\<close> expression of the \<open>ORDER BY\<close> clause.\<close>

definition urgency_tier :: "string option \<Rightarrow> nat" where
  "urgency_tier frustration =
     (if ilike_contains frustration ''extremely'' then 1
      else if ilike_contains frustration ''very'' then 2
      else if ilike_contains frustration ''frustrated'' then 3
      else 4)"

text \<open>
  \<open>ORDER BY <tier>, sr.created_at DESC\<close>: ascending tier, then descending timestamp, where
  PostgreSQL puts \<open>NULL\<close> first in a descending sort. The sort key is ordered
  lexicographically; the sort is stable, so rows with equal keys come out in table order,
  and since the table order is arbitrary so is the choice among them.
\<close>

definition created_at_desc :: "int option \<Rightarrow> nat \<times> int" where
  "created_at_desc t = (case t of None \<Rightarrow> (0, 0) | Some ms \<Rightarrow> (1, - ms))"

definition order_key :: "'p survey_response \<times> customer \<Rightarrow> nat \<times> nat \<times> int" where
  "order_key row =
     (urgency_tier (sr_operational_frustration (fst row)),
      created_at_desc (sr_created_at (fst row)))"

text \<open>
  The \<open>WHERE\<close> clause, with \<open>$1 = shardIndex\<close>, \<open>$2 = totalShards\<close> and \<open>$3\<close> the
  array of excluded ids; \<open>None\<close> when evaluating it raises \<open>division_by_zero\<close>. The
  conjuncts are taken in the order written and evaluation stops at the first that is not
  true, so the remainder is computed, and can raise, only for a row that passed the five
  conjuncts before it. (Which rows reach it is in fact the planner's choice; it only
  matters for \<open>totalShards = 0\<close>.)
\<close>

definition where_clause ::
  "int \<Rightarrow> int \<Rightarrow> int list \<Rightarrow> 'p survey_response \<times> customer \<Rightarrow> bool option" where
  "where_clause sIndex tShards excluded row =
     (if c_phone_number (snd row) \<noteq> None
         \<and> c_phone_number (snd row) \<noteq> Some []
         \<and> sr_processed (fst row) \<noteq> Some True
         \<and> sr_data_sent_to_retell (fst row) \<noteq> Some True
         \<and> c_phone_number_validated (snd row) = Some True
      then (case sql_shard_condition (sr_id (fst row)) sIndex tShards of
              None \<Rightarrow> None
            | Some in_shard \<Rightarrow> Some (in_shard \<and> sr_id (fst row) \<notin> set excluded))
      else Some False)"

text \<open>\<open>FROM survey_responses sr JOIN customers c ON c.id = sr.customer_id\<close>.\<close>

definition joined_rows :: "'p database \<Rightarrow> ('p survey_response \<times> customer) list" where
  "joined_rows db =
     concat (map (\<lambda>sr. map (\<lambda>c. (sr, c))
                         (filter (\<lambda>c. sr_customer_id sr = Some (c_id c)) (customers db)))
                 (survey_responses db))"

text \<open>
  \<open>FOR UPDATE SKIP LOCKED\<close> locks the rows of both tables behind a result row and passes
  over a result row when another transaction holds one of those locks.
\<close>

definition row_locked :: "'p database \<Rightarrow> 'p survey_response \<times> customer \<Rightarrow> bool" where
  "row_locked db row =
     (sr_id (fst row) \<in> set (locked_survey_responses db)
      \<or> c_id (snd row) \<in> set (locked_customers db))"

text \<open>
  The three query parameters are bound as PostgreSQL integers: \<open>$2\<close> next to \<open>sr.id\<close>,
  \<open>$1\<close> in \<open>$1 - 1\<close>, \<open>$3\<close> by its cast to \<open>int[]\<close>. The driver sends each number
  as text. A value outside the 32-bit range is refused when it is bound, in the order
  \<open>$1\<close>, \<open>$2\<close>, the elements of \<open>$3\<close>: with \<open>numeric_value_out_of_range\<close> (22003),
  or, from \<open>1e21\<close> on, where the text is in exponent form, with
  \<open>invalid_text_representation\<close> (22P02). After that \<open>$1 - 1\<close> can still overflow.
  Either way the statement fails before any row is read. (The message texts are
  PostgreSQL's without the offending value.)
\<close>

definition int4 :: "int \<Rightarrow> bool" where
  "int4 n = (- 2147483648 \<le> n \<and> n \<le> 2147483647)"

definition bind_int4 :: "int \<Rightarrow> js_error option" where
  "bind_int4 n =
     (if int4 n then None
      else if \<bar>n\<bar> < 10 ^ 21 then
        Some \<lparr>status = None, message = Text ''value is out of range for type integer'',
              code = Some ''22003''\<rparr>
      else
        Some \<lparr>status = None, message = Text ''invalid input syntax for type integer'',
              code = Some ''22P02''\<rparr>)"

definition bind_parameters :: "int \<Rightarrow> int \<Rightarrow> int list \<Rightarrow> js_error option" where
  "bind_parameters sIndex tShards excluded =
     (case List.map_filter bind_int4 (sIndex # tShards # excluded) of
        error # rest \<Rightarrow> Some error
      | [] \<Rightarrow>
          if int4 (sIndex - 1) then None
          else Some \<lparr>status = None, message = Text ''integer out of range'',
                     code = Some ''22003''\<rparr>)"

text \<open>The parameters with which the statement is not refused.\<close>

definition parameters_in_range :: "int \<Rightarrow> int \<Rightarrow> int list \<Rightarrow> bool" where
  "parameters_in_range sIndex tShards excluded =
     (int4 sIndex \<and> int4 (sIndex - 1) \<and> int4 tShards \<and> list_all int4 excluded)"

definition claim_query ::
  "'p database \<Rightarrow> int \<Rightarrow> int \<Rightarrow> int list
     \<Rightarrow> js_error + ('p survey_response \<times> customer) list" where
  "claim_query db sIndex tShards excluded =
     (case bind_parameters sIndex tShards excluded of
        Some error \<Rightarrow> Inl error
      | None \<Rightarrow>
          if list_ex (\<lambda>row. where_clause sIndex tShards excluded row = None) (joined_rows db)
          then Inl \<lparr>status = None, message = Text ''division by zero'',
                    code = Some ''22012''\<rparr>
          else Inr (take 1
                      (filter (\<lambda>row. \<not> row_locked db row)
                         (sort_key order_key
                            (filter (\<lambda>row. where_clause sIndex tShards excluded row = Some True)
                               (joined_rows db))))))"

text \<open>
  \<^verbatim>\<open>const activeSurveyIds = [...activeSurveys.keys()]
      .filter((x) => Number.isInteger(x));\<close>
  The keys that pass are integers; the array holds them in Map order.
\<close>

fun the_integer :: "js_value \<Rightarrow> int" where
  "the_integer (JInt n) = n"
| "the_integer v = 0"

definition activeSurveyIds :: "(js_value, 'v) js_map \<Rightarrow> int list" where
  "activeSurveyIds surveys = map the_integer (filter Number_isInteger (jsmap_keys surveys))"

text \<open>
  \<open>getNextSurveyResponse(shardIndex, totalShards, activeSurveys)\<close>. The first argument
  is what \<open>pool.connect()\<close> and \<open>BEGIN\<close> give: an error, which propagates, or a session on
  the database. The query reads only and the transaction commits at once, so the tables
  are as before. A failing query is rolled back and rethrown; no row is \<open>null\<close>, here
  \<open>Inr None\<close>.
\<close>

definition getNextSurveyResponse ::
  "js_error + 'p database \<Rightarrow> int \<Rightarrow> int \<Rightarrow> (js_value, 'v) js_map
     \<Rightarrow> js_error + ('p survey_response \<times> customer) option" where
  "getNextSurveyResponse connection sIndex tShards surveys =
     (case connection of
        Inl error \<Rightarrow> Inl error
      | Inr db \<Rightarrow>
          (case claim_query db sIndex tShards (activeSurveyIds surveys) of
             Inl error \<Rightarrow> Inl error
           | Inr rows \<Rightarrow> (case rows of [] \<Rightarrow> Inr None | row # rest \<Rightarrow> Inr (Some row))))"

text \<open>The eligibility the claims speak of, read off the \<open>WHERE\<close> clause.\<close>

definition eligible ::
  "int \<Rightarrow> int \<Rightarrow> int list \<Rightarrow> 'p survey_response \<times> customer \<Rightarrow> bool" where
  "eligible sIndex tShards excluded row =
     (sr_processed (fst row) \<noteq> Some True
      \<and> sr_data_sent_to_retell (fst row) \<noteq> Some True
      \<and> c_phone_number (snd row) \<noteq> None \<and> c_phone_number (snd row) \<noteq> Some []
      \<and> c_phone_number_validated (snd row) = Some True
      \<and> shouldProcessId (sr_id (fst row)) sIndex tShards
      \<and> sr_id (fst row) \<notin> set excluded)"

text \<open>
  The urgency tier as the claims word it: the place of the first of the keywords
  \<open>extremely\<close>, \<open>very\<close>, \<open>frustrated\<close> that the frustration text matches, and the place
  after them for a text that matches none (or is missing).
\<close>

definition claimed_tier :: "string option \<Rightarrow> nat" where
  "claimed_tier frustration =
     length (takeWhile (\<lambda>keyword. \<not> ilike_contains frustration keyword)
               [''extremely'', ''very'', ''frustrated''])"

text \<open>
  \<open>claimed_before r r'\<close>: \<open>r\<close> is not after \<open>r'\<close> in the order the claims describe,
  urgency tier first and most recent \<open>created_at\<close> within a tier. A row without a
  timestamp is not more recent than a row that has one.
\<close>

definition claimed_before ::
  "'p survey_response \<times> customer \<Rightarrow> 'p survey_response \<times> customer \<Rightarrow> bool" where
  "claimed_before r r' =
     (let t = claimed_tier (sr_operational_frustration (fst r));
          t' = claimed_tier (sr_operational_frustration (fst r'))
      in t < t' \<or>
         (t = t' \<and>
          (case (sr_created_at (fst r), sr_created_at (fst r')) of
             (Some a, Some b) \<Rightarrow> b \<le> a
           | (Some a, None) \<Rightarrow> True
           | (None, Some b) \<Rightarrow> False
           | (None, None) \<Rightarrow> True)))"

text \<open>
  \<open>ranks_before r r'\<close>: the same with the one difference the query makes, that within
  a tier a row whose \<open>created_at\<close> is \<open>NULL\<close> comes before every row that has one.
\<close>

definition ranks_before ::
  "'p survey_response \<times> customer \<Rightarrow> 'p survey_response \<times> customer \<Rightarrow> bool" where
  "ranks_before r r' =
     (let t = claimed_tier (sr_operational_frustration (fst r));
          t' = claimed_tier (sr_operational_frustration (fst r'))
      in t < t' \<or>
         (t = t' \<and>
          (case (sr_created_at (fst r), sr_created_at (fst r')) of
             (None, x) \<Rightarrow> True
           | (Some a, None) \<Rightarrow> False
           | (Some a, Some b) \<Rightarrow> b \<le> a)))"

section \<open>ShardingManager: monitoring the shard count\<close>







section \<open>What the claims say, as definitions\<close>

subsection \<open>Runs of the retry loop\<close>

text \<open>
  \<open>iterate_op operation n s\<close> is the state after \<open>n\<close> calls of the operation from \<open>s\<close>,
  so \<open>operation (iterate_op operation n s)\<close> is what call number \<open>n + 1\<close> does.
\<close>

fun iterate_op :: "('s \<Rightarrow> ('e + 'a) \<times> 's) \<Rightarrow> nat \<Rightarrow> 's \<Rightarrow> 's" where
  "iterate_op operation 0 s = s"
| "iterate_op operation (Suc n) s = iterate_op operation n (snd (operation s))"

text \<open>
  A run that started at \<open>attempt\<close> and made \<open>k\<close> further attempts: it stayed within
  \<open>maxRetries\<close>, its steps are \<open>retry_trace\<close>, all attempts but the last failed, and the
  last one either returned, or failed as attempt number \<open>maxRetries\<close> and its error is
  what the loop throws.
\<close>

definition run_ok ::
  "('s \<Rightarrow> ('e + 'a) \<times> 's) \<Rightarrow> int \<Rightarrow> real \<Rightarrow> (int \<Rightarrow> real) \<Rightarrow> int \<Rightarrow> 's
     \<Rightarrow> ('e option + 'a) \<times> 's \<times> retry_event list \<Rightarrow> nat \<Rightarrow> bool" where
  "run_ok operation maxRetries baseDelay rnd attempt s out k =
     (attempt + int k \<le> maxRetries
        \<and> snd (snd out) = retry_trace baseDelay rnd attempt k
        \<and> fst (snd out) = iterate_op operation (Suc k) s
        \<and> (\<forall>j<k. isl (fst (operation (iterate_op operation j s))))
        \<and> (case fst (operation (iterate_op operation k s)) of
              Inr v \<Rightarrow> fst out = Inr v
            | Inl e \<Rightarrow> fst out = Inl (Some e) \<and> attempt + int k = maxRetries))"

text \<open>
  The same for a whole call of a retry helper, with the number of attempts read off the
  recorded steps: between 1 and \<open>maxRetries\<close> invocations, one sleep of
  \<open>backoff baseDelay attempt + rnd attempt * 1000\<close> after every attempt but the last, and
  the outcome that of the last attempt, an error only after attempt \<open>maxRetries\<close>.
\<close>

definition backoff_run ::
  "('s \<Rightarrow> ('e + 'a) \<times> 's) \<Rightarrow> int \<Rightarrow> real \<Rightarrow> (int \<Rightarrow> real) \<Rightarrow> 's
     \<Rightarrow> ('e option + 'a) \<times> 's \<times> retry_event list \<Rightarrow> bool" where
  "backoff_run operation maxRetries baseDelay rnd s out =
     (let n = invocations (snd (snd out)) in
      1 \<le> n \<and> int n \<le> maxRetries
      \<and> snd (snd out) = retry_trace baseDelay rnd 1 (n - 1)
      \<and> fst (snd out) = iterate_op operation n s
      \<and> list_all (\<lambda>j. isl (fst (operation (iterate_op operation j s)))) [0..<n - 1]
      \<and> (case fst (operation (iterate_op operation (n - 1) s)) of
            Inr v \<Rightarrow> fst out = Inr v
          | Inl e \<Rightarrow> fst out = Inl (Some e) \<and> int n = maxRetries))"

text \<open>
  The jitter of every sleep lies in \<open>[0, 1000)\<close>: sleep number \<open>i\<close> (from 0) follows
  attempt \<open>i + 1\<close> and lasts at least that attempt's backoff and less than 1000 ms more.
\<close>

definition jitter_bounded :: "real \<Rightarrow> retry_event list \<Rightarrow> bool" where
  "jitter_bounded baseDelay evs =
     list_all (\<lambda>(i, d). backoff baseDelay (int i + 1) \<le> d
                       \<and> d < backoff baseDelay (int i + 1) + 1000)
       (enumerate 0 (sleeps evs))"

text \<open>
  The process-wide shutdown flag lives in the \<open>RetellCaller\<close> object, next to the client
  whose \<open>withRetry\<close> it calls.
\<close>

record RetellCaller =
  isShuttingDown :: bool
  retellClient :: RetellClient

subsection \<open>The staleness sweep\<close>

text \<open>An entry is old when its age \<open>now - createdAt\<close> exceeds \<open>maxAgeMs\<close>.\<close>

definition call_is_old :: "int \<Rightarrow> int \<Rightarrow> string \<times> call_info \<Rightarrow> bool" where
  "call_is_old maxAgeMs now entry = (now - call_info.createdAt (snd entry) > maxAgeMs)"

definition survey_is_old :: "int \<Rightarrow> int \<Rightarrow> js_value \<times> survey_info \<Rightarrow> bool" where
  "survey_is_old maxAgeMs now entry = (now - survey_info.createdAt (snd entry) > maxAgeMs)"

text \<open>The warning record written for an evicted entry.\<close>

definition call_warning :: "int \<Rightarrow> string \<times> call_info \<Rightarrow> cleanup_log" where
  "call_warning now entry =
     CleanedCall (fst entry) (surveyId (snd entry)) (now - call_info.createdAt (snd entry))"

definition survey_warning :: "int \<Rightarrow> js_value \<times> survey_info \<Rightarrow> cleanup_log" where
  "survey_warning now entry =
     CleanedSurvey (fst entry) (callId (snd entry)) (now - survey_info.createdAt (snd entry))"

section \<open>Concrete scenarios\<close>

text \<open>
  An operation that fails twice with a connection reset and then succeeds (its state
  counts the calls), one that a given HTTP status always rejects, and one that always
  times out; a \<open>Math.random()\<close> that always yields one half.
\<close>

definition flaky :: "nat \<Rightarrow> (js_error + string) \<times> nat" where
  "flaky n = (if n < 2 then Inl (Error ''ECONNRESET'') else Inr ''accepted'', Suc n)"

definition rejecting :: "int \<Rightarrow> 's \<Rightarrow> (js_error + string) \<times> 's" where
  "rejecting st s = (Inl \<lparr>status = Some st, message = Text ''rejected'', code = None\<rparr>, s)"

definition timing_out :: "'s \<Rightarrow> (js_error + string) \<times> 's" where
  "timing_out s = (Inl (Error ''ETIMEDOUT''), s)"

definition half_jitter :: "int \<Rightarrow> real" where
  "half_jitter attempt = 1 / 2"

text \<open>A service object whose shutdown has begun.\<close>

definition shutting_down :: RetellCaller where
  "shutting_down =
     \<lparr>isShuttingDown = True,
      retellClient = \<lparr>fromNumber = ''+17787691188'', agentId = ''agent'',
                      activeCalls = [], activeSurveys = []\<rparr>\<rparr>"

text \<open>
  A client with three calls in flight, created 10, 31 and 45 minutes before the clock
  reads 2700000 ms.
\<close>

definition aged_client :: RetellClient where
  "aged_client =
     \<lparr>fromNumber = ''+17787691188'', agentId = ''agent'',
      activeCalls =
        [(''call-a'', \<lparr>surveyId = JInt 1, createdAt = 2100000,
                      customerName = ''Ann'', phoneNumber = ''+15550001''\<rparr>),
         (''call-b'', \<lparr>surveyId = JInt 2, createdAt = 840000,
                      customerName = ''Bob'', phoneNumber = ''+15550002''\<rparr>),
         (''call-c'', \<lparr>surveyId = JInt 3, createdAt = 0,
                      customerName = ''Cy'', phoneNumber = ''+15550003''\<rparr>)],
      activeSurveys =
        [(JInt 1, \<lparr>callId = ''call-a'', createdAt = 2100000,
                   customerName = ''Ann'', phoneNumber = ''+15550001''\<rparr>),
         (JInt 2, \<lparr>callId = ''call-b'', createdAt = 840000,
                   customerName = ''Bob'', phoneNumber = ''+15550002''\<rparr>),
         (JInt 3, \<lparr>callId = ''call-c'', createdAt = 0,
                   customerName = ''Cy'', phoneNumber = ''+15550003''\<rparr>)]\<rparr>"

text \<open>Survey 5, a client that already tracks it, and a Retell service that accepts.\<close>

definition survey_five :: survey_data where
  "survey_five =
     \<lparr>survey_id = JInt 5, customer_name = ''Eve'', client_phone_number = ''+15550005'',
      client_email = ''eve@example.com'', business_type = ''retail'', revenue = ''1M'',
      operational_frustration = ''very frustrated'', inefficiencies = ''manual entry'',
      one_task_to_automate = ''invoicing'', important_outcome = ''time'',
      survey_date = ''2025-01-01''\<rparr>"

definition tracking_five :: RetellClient where
  "tracking_five =
     \<lparr>fromNumber = ''+17787691188'', agentId = ''agent'',
      activeCalls =
        [(''call-e'', \<lparr>surveyId = JInt 5, createdAt = 1000,
                      customerName = ''Eve'', phoneNumber = ''+15550005''\<rparr>)],
      activeSurveys =
        [(JInt 5, \<lparr>callId = ''call-e'', createdAt = 1000,
                   customerName = ''Eve'', phoneNumber = ''+15550005''\<rparr>)]\<rparr>"

definition accepting :: "call_payload \<Rightarrow> js_error + phone_call_response" where
  "accepting payload = Inr \<lparr>call_id = ''call-f'', agent_id = override_agent_id payload\<rparr>"

definition always_accepting :: "nat \<Rightarrow> call_payload \<Rightarrow> js_error + phone_call_response" where
  "always_accepting n payload = accepting payload"

definition steady_clock :: "nat \<Rightarrow> int" where
  "steady_clock n = 2000"

text \<open>
  A backlog of five survey responses for two customers, seen from shard 1 of 2 (the even
  ids): row 4 is in tier 3, row 6 in tier 1, row 8 in tier 2, row 10 is processed, row 7
  belongs to the other shard.
\<close>

definition customer_one :: customer where
  "customer_one =
     \<lparr>c_id = 1, c_name = Some ''Ann'', c_email = Some ''ann@example.com'',
      c_phone_number = Some ''+15550001'', c_phone_number_validated = Some True\<rparr>"

definition customer_two :: customer where
  "customer_two =
     \<lparr>c_id = 2, c_name = Some ''Bob'', c_email = None,
      c_phone_number = Some ''+15550002'', c_phone_number_validated = Some True\<rparr>"

definition row_four :: "unit survey_response" where
  "row_four =
     \<lparr>sr_id = 4, sr_customer_id = Some 1,
      sr_operational_frustration = Some ''somewhat frustrated'', sr_created_at = Some 900,
      sr_processed = None, sr_data_sent_to_retell = None, sr_columns = ()\<rparr>"

definition row_six :: "unit survey_response" where
  "row_six =
     \<lparr>sr_id = 6, sr_customer_id = Some 2,
      sr_operational_frustration = Some ''Extremely slow invoicing'', sr_created_at = Some 100,
      sr_processed = Some False, sr_data_sent_to_retell = None, sr_columns = ()\<rparr>"

definition row_seven :: "unit survey_response" where
  "row_seven =
     \<lparr>sr_id = 7, sr_customer_id = Some 1,
      sr_operational_frustration = Some ''extremely frustrated'', sr_created_at = Some 950,
      sr_processed = None, sr_data_sent_to_retell = None, sr_columns = ()\<rparr>"

definition row_eight :: "unit survey_response" where
  "row_eight =
     \<lparr>sr_id = 8, sr_customer_id = Some 1,
      sr_operational_frustration = Some ''VERY annoying'', sr_created_at = Some 500,
      sr_processed = None, sr_data_sent_to_retell = Some False, sr_columns = ()\<rparr>"

definition row_ten :: "unit survey_response" where
  "row_ten =
     \<lparr>sr_id = 10, sr_customer_id = Some 2,
      sr_operational_frustration = Some ''extremely frustrated'', sr_created_at = Some 990,
      sr_processed = Some True, sr_data_sent_to_retell = None, sr_columns = ()\<rparr>"

definition sample_db :: "unit database" where
  "sample_db =
     \<lparr>survey_responses = [row_four, row_six, row_seven, row_eight, row_ten],
      customers = [customer_one, customer_two],
      locked_survey_responses = [], locked_customers = []\<rparr>"

text \<open>
  The same backlog with row 6 locked by another transaction, and with one more row of
  tier 1 whose \<open>created_at\<close> is \<open>NULL\<close>.
\<close>

definition locked_db :: "unit database" where
  "locked_db = sample_db\<lparr>locked_survey_responses := [6]\<rparr>"

definition row_twelve :: "unit survey_response" where
  "row_twelve =
     \<lparr>sr_id = 12, sr_customer_id = Some 1,
      sr_operational_frustration = Some ''extremely urgent'', sr_created_at = None,
      sr_processed = None, sr_data_sent_to_retell = None, sr_columns = ()\<rparr>"

definition undated_db :: "unit database" where
  "undated_db =
     sample_db\<lparr>survey_responses :=
                 [row_four, row_six, row_seven, row_eight, row_ten, row_twelve]\<rparr>"

text \<open>
  An in-flight map with one entry under the given key, and one that holds every open
  survey of shard 1.
\<close>

definition info_f :: survey_info where
  "info_f = \<lparr>callId = ''call-f'', createdAt = 1000,
             customerName = ''Bob'', phoneNumber = ''+15550002''\<rparr>"

definition tracked_as :: "js_value \<Rightarrow> (js_value, survey_info) js_map" where
  "tracked_as k = [(k, info_f)]"

definition all_in_flight :: "(js_value, survey_info) js_map" where
  "all_in_flight = [(JInt 4, info_f), (JInt 6, info_f), (JInt 8, info_f)]"




lemmas sample_defs = sample_db_def row_four_def row_six_def row_seven_def row_eight_def
  row_ten_def customer_one_def customer_two_def tracked_as_def info_f_def
  locked_db_def undated_db_def row_twelve_def

section \<open>Properties of the partition predicate\<close>

lemma trunc_rem_nonneg: "0 \<le> a \<Longrightarrow> 0 < b \<Longrightarrow> trunc_rem a b = a mod b"
  by (cases "a = 0") (simp_all add: trunc_rem_def)

lemma shouldProcessId_mod:
  "0 \<le> idn \<Longrightarrow> 1 \<le> tot \<Longrightarrow> shouldProcessId idn index tot = (idn mod tot = index - 1)"
  by (simp add: shouldProcessId_def js_rem_def trunc_rem_nonneg)

text \<open>
  C1. For an id \<open>\<ge> 0\<close> and a total \<open>\<ge> 1\<close>, \<open>shouldProcessId id index tot\<close> is true
  exactly when \<open>id mod tot = index - 1\<close>, for every index from 1 to total; hence exactly
  one index in that range owns the id. Also \<open>shouldProcessId 7 2 2\<close> holds and
  \<open>shouldProcessId 8 2 2\<close> does not.
\<close>

theorem shouldProcessId_partition:
  assumes "0 \<le> idn" and "1 \<le> tot"
  shows "(\<forall>index. 1 \<le> index \<and> index \<le> tot \<longrightarrow>
            shouldProcessId idn index tot = (idn mod tot = index - 1))
       \<and> (\<exists>!index. 1 \<le> index \<and> index \<le> tot \<and> shouldProcessId idn index tot)
       \<and> shouldProcessId 7 2 2 \<and> \<not> shouldProcessId 8 2 2"
proof -
  have m: "\<And>index. shouldProcessId idn index tot = (idn mod tot = index - 1)"
    using assms by (rule shouldProcessId_mod)
  have lo: "0 \<le> idn mod tot" and hi: "idn mod tot < tot"
    using assms by simp_all
  have ex: "\<exists>!index. 1 \<le> index \<and> index \<le> tot \<and> shouldProcessId idn index tot"
  proof (rule ex1I [of _ "idn mod tot + 1"])
    show "1 \<le> idn mod tot + 1 \<and> idn mod tot + 1 \<le> tot
          \<and> shouldProcessId idn (idn mod tot + 1) tot"
      using lo hi by (simp add: m)
  next
    fix index
    assume "1 \<le> index \<and> index \<le> tot \<and> shouldProcessId idn index tot"
    then show "index = idn mod tot + 1" by (simp add: m)
  qed
  have c7: "shouldProcessId 7 2 2" and c8: "\<not> shouldProcessId 8 2 2"
    by (simp_all add: shouldProcessId_def js_rem_def trunc_rem_def)
  show ?thesis using m ex c7 c8 by blast
qed

theorem shouldProcessId_partition_witness:
  "(0::int) \<le> 7 \<and> (1::int) \<le> 2
   \<and> shouldProcessId 7 2 2 = ((7::int) mod 2 = 2 - 1)
   \<and> shouldProcessId 7 1 2 = ((7::int) mod 2 = 1 - 1)
   \<and> (\<exists>!index. 1 \<le> index \<and> index \<le> 2 \<and> shouldProcessId 7 index 2)"
  using shouldProcessId_partition [of 7 2] by simp

section \<open>The live filter and the offline enumeration\<close>

lemma getExampleIds_loop_subset:
  "set (getExampleIds_loop sIndex tShards maxExamples i examples)
     \<subseteq> set examples \<union> {j. shouldProcessId j sIndex tShards}"
proof (induction sIndex tShards maxExamples i examples rule: getExampleIds_loop.induct)
  case (1 sIndex tShards maxExamples i examples)
  show ?case
    apply (subst getExampleIds_loop.simps)
    using 1 by (auto simp: Let_def)
qed

text \<open>
  C9. For a shard pair with \<open>1 \<le> index \<le> total\<close>, the SQL shard condition
  \<open>(sr.id % totalShards) = (shardIndex - 1)\<close> of the claim query holds for an id exactly
  when \<open>shouldProcessId\<close> is true of it (all ids, negative ones included), and every
  id that \<open>getExampleIds\<close> returns satisfies \<open>shouldProcessId\<close> for that shard.
\<close>

theorem shard_filter_agrees:
  assumes "1 \<le> tot" and "1 \<le> index" and "index \<le> tot"
  shows "sql_shard_condition idn index tot = Some (shouldProcessId idn index tot)
       \<and> (\<forall>i \<in> set (getExampleIds (Inr \<lparr>shardIndex = index, totalShards = tot\<rparr> :: js_error + shard_info)
                        maxExamples).
             shouldProcessId i index tot)"
proof -
  have "sql_shard_condition idn index tot = Some (shouldProcessId idn index tot)"
    using assms(1)
    by (auto simp: sql_shard_condition_def sql_rem_def shouldProcessId_def js_rem_def)
  moreover have "\<forall>i \<in> set (getExampleIds
        (Inr \<lparr>shardIndex = index, totalShards = tot\<rparr> :: js_error + shard_info) maxExamples).
      shouldProcessId i index tot"
    using getExampleIds_loop_subset [of index tot maxExamples 1 "[]"]
    by (auto simp: getExampleIds_def)
  ultimately show ?thesis by blast
qed

text \<open>The shard pair (2, 2): the condition on id 7, and the first three example ids.\<close>

theorem shard_filter_agrees_witness:
  "(1::int) \<le> 2 \<and> (1::int) \<le> 2 \<and> (2::int) \<le> 2
   \<and> sql_shard_condition 7 2 2 = Some (shouldProcessId 7 2 2)
   \<and> getExampleIds (Inr \<lparr>shardIndex = 2, totalShards = 2\<rparr> :: js_error + shard_info) 3 = [1, 3, 5]
   \<and> shouldProcessId 1 2 2 \<and> shouldProcessId 3 2 2 \<and> shouldProcessId 5 2 2"
  using shard_filter_agrees [of 2 2 7 3]
  by (simp add: getExampleIds_def getExampleIds_loop.simps shouldProcessId_def js_rem_def
        trunc_rem_def)

section \<open>Unfolding the retry loop\<close>

lemma retry_loop_returns:
  "attempt \<le> maxRetries \<Longrightarrow> operation s = (Inr v, s') \<Longrightarrow>
   retry_loop noRetry operation maxRetries baseDelay rnd attempt lastError s
     = (Inr v, s', [Invoked attempt])"
  by (subst retry_loop.simps) simp

lemma retry_loop_throws:
  "attempt \<le> maxRetries \<Longrightarrow> operation s = (Inl e, s') \<Longrightarrow> noRetry e = Inr rethrow \<Longrightarrow>
   rethrow \<or> attempt = maxRetries \<Longrightarrow>
   retry_loop noRetry operation maxRetries baseDelay rnd attempt lastError s
     = (Inl (Some e), s', [Invoked attempt])"
  by (subst retry_loop.simps) auto

lemma retry_loop_test_throws:
  "attempt \<le> maxRetries \<Longrightarrow> operation s = (Inl e, s') \<Longrightarrow> noRetry e = Inl testError \<Longrightarrow>
   retry_loop noRetry operation maxRetries baseDelay rnd attempt lastError s
     = (Inl (Some testError), s', [Invoked attempt])"
  by (subst retry_loop.simps) simp

lemma retry_loop_retries:
  "attempt < maxRetries \<Longrightarrow> operation s = (Inl e, s') \<Longrightarrow> noRetry e = Inr False \<Longrightarrow>
   retry_loop noRetry operation maxRetries baseDelay rnd attempt lastError s
     = (case retry_loop noRetry operation maxRetries baseDelay rnd (attempt + 1) (Some e) s' of
          (r, s'', evs) \<Rightarrow>
            (r, s'', Invoked attempt # Slept (backoff baseDelay attempt + rnd attempt * 1000) # evs))"
  by (subst retry_loop.simps) (simp add: backoff_def)

lemma retry_loop_skipped:
  "\<not> attempt \<le> maxRetries \<Longrightarrow>
   retry_loop noRetry operation maxRetries baseDelay rnd attempt lastError s = (Inl lastError, s, [])"
  by (subst retry_loop.simps) simp

section \<open>The tracking maps stay Maps\<close>

text \<open>
  Both maps start empty and are only written by \<open>createPhoneCall\<close> and
  \<open>cleanupOldCalls\<close>, so no key ever occurs twice.
\<close>

lemma jsmap_keys_set:
  "jsmap_keys (jsmap_set k v m)
     = (if k \<in> set (jsmap_keys m) then jsmap_keys m else jsmap_keys m @ [k])"
  by (induction m) (auto simp: jsmap_keys_def rev_image_eqI)

lemma jsmap_set_ok: "jsmap_ok m \<Longrightarrow> jsmap_ok (jsmap_set k v m)"
  using jsmap_keys_set [of k v m] by (auto simp: jsmap_ok_def jsmap_keys_def)

lemma createPhoneCall_keeps_maps_ok:
  assumes "jsmap_ok (activeCalls this)" and "jsmap_ok (activeSurveys this)"
  shows "jsmap_ok (activeCalls (snd (createPhoneCall numText api now surveyData this)))
       \<and> jsmap_ok (activeSurveys (snd (createPhoneCall numText api now surveyData this)))"
  using assms
  by (auto simp: createPhoneCall_def Let_def jsmap_set_ok split: sum.splits)

section \<open>Dispatching a survey that is already tracked\<close>

lemma starts_with_append: "starts_with (p @ ys) p"
  by (induction p) simp_all

lemma String_includes_append: "String_includes (xs @ p @ ys) p"
proof (induction xs)
  case Nil
  show ?case by (cases "p @ ys") (use starts_with_append [of p ys] in auto)
next
  case (Cons x xs)
  then show ?case by simp
qed

lemma duplicate_message:
  "already_being_processed (Error (''Survey '' @ t @ '' is already being processed''))
     = Inr True"
proof -
  have "String_includes (''Survey '' @ t @ '' is '' @ ''already being processed'' @ [])
          ''already being processed''"
    using String_includes_append [of "''Survey '' @ t @ '' is ''" "''already being processed''" "[]"]
    by simp
  then show ?thesis by (simp add: already_being_processed_def message_includes_def Error_def)
qed

text \<open>
  C2. When the survey id is already a key of \<open>activeSurveys\<close>, \<open>createPhoneCall\<close> for
  it throws the error \<open>Survey <id> is already being processed\<close> and leaves the client,
  both maps included, as it was, whatever the Retell service would have answered. That
  error passes the test \<open>message.includes('already being processed')\<close>, so \<open>withRetry\<close>
  rethrows it after the one attempt without sleeping, and the \<open>catch\<close> block of
  \<open>processSingleSurvey\<close> takes its duplicate branch (a debug record and a plain return,
  not the error record). \<open>processSingleSurvey\<close> itself, run on such a state, returns at
  its guard with nothing changed and nothing attempted.
\<close>

theorem createPhoneCall_duplicate:
  assumes "jsmap_has (activeSurveys this) (survey_id surveyData)"
  shows "createPhoneCall numText api now surveyData this
           = (Inl (Error (''Survey '' @ js_template numText (survey_id surveyData)
                            @ '' is already being processed'')), this)
       \<and> already_being_processed
           (Error (''Survey '' @ js_template numText (survey_id surveyData)
                     @ '' is already being processed''))
           = Inr True
       \<and> withRetry (dispatch_operation numText apis clock surveyData) 3 2000 rnd
             \<lparr>client = this, calls_made = n\<rparr>
           = (Inl (Some (Error (''Survey '' @ js_template numText (survey_id surveyData)
                                  @ '' is already being processed''))),
              \<lparr>client = this, calls_made = Suc n\<rparr>, [Invoked 1])
       \<and> processSingleSurvey_catch
             (Some (Error (''Survey '' @ js_template numText (survey_id surveyData)
                             @ '' is already being processed'')))
           = SkippedDuplicate
       \<and> processSingleSurvey numText apis clock rnd surveyData
             \<lparr>client = this, calls_made = n\<rparr>
           = (SkippedAlreadyTracked, \<lparr>client = this, calls_made = n\<rparr>, [])"
proof -
  let ?e = "Error (''Survey '' @ js_template numText (survey_id surveyData)
                     @ '' is already being processed'')"
  have c: "\<And>api now. createPhoneCall numText api now surveyData this = (Inl ?e, this)"
    using assms by (simp add: createPhoneCall_def isSurveyBeingProcessed_def)
  have d: "already_being_processed ?e = Inr True" by (rule duplicate_message)
  have t: "withRetry_noRetry ?e = Inr True" using d by (simp add: withRetry_noRetry_def)
  have op: "dispatch_operation numText apis clock surveyData \<lparr>client = this, calls_made = n\<rparr>
              = (Inl ?e, \<lparr>client = this, calls_made = Suc n\<rparr>)"
    by (simp add: dispatch_operation_def c)
  have w: "withRetry (dispatch_operation numText apis clock surveyData) 3 2000 rnd
             \<lparr>client = this, calls_made = n\<rparr>
           = (Inl (Some ?e), \<lparr>client = this, calls_made = Suc n\<rparr>, [Invoked 1])"
    unfolding withRetry_def using op t by (intro retry_loop_throws [where rethrow = True]) simp_all
  have k: "processSingleSurvey_catch (Some ?e) = SkippedDuplicate"
    using d by (simp add: processSingleSurvey_catch_def)
  have p: "processSingleSurvey numText apis clock rnd surveyData
             \<lparr>client = this, calls_made = n\<rparr>
           = (SkippedAlreadyTracked, \<lparr>client = this, calls_made = n\<rparr>, [])"
    using assms by (simp add: processSingleSurvey_def isSurveyBeingProcessed_def)
  show ?thesis using c d w k p by simp
qed

text \<open>
  Survey 5 tracked and dispatched again: the message reads as in the source and the map
  still holds the one entry.
\<close>

theorem createPhoneCall_duplicate_witness:
  "jsmap_has (activeSurveys tracking_five) (survey_id survey_five)
   \<and> createPhoneCall show_int accepting 2000 survey_five tracking_five
       = (Inl (Error ''Survey 5 is already being processed''), tracking_five)
   \<and> map fst (activeSurveys
         (snd (createPhoneCall show_int accepting 2000 survey_five tracking_five)))
       = [JInt 5]
   \<and> processSingleSurvey show_int always_accepting steady_clock half_jitter survey_five
         \<lparr>client = tracking_five, calls_made = 0\<rparr>
       = (SkippedAlreadyTracked, \<lparr>client = tracking_five, calls_made = 0\<rparr>, [])"
  using createPhoneCall_duplicate [where this = tracking_five and surveyData = survey_five
      and numText = show_int and api = accepting and now = 2000 and apis = always_accepting
      and clock = steady_clock and rnd = half_jitter and n = 0]
  by (simp add: tracking_five_def survey_five_def jsmap_has_def show_int_def show_nat.simps)

section \<open>The staleness sweep\<close>

lemma fold_delete_entries:
  "distinct (map fst m) \<Longrightarrow> set es \<subseteq> set m \<Longrightarrow> distinct (map fst es) \<Longrightarrow>
    fold (\<lambda>k (m, lg). (case map_of m k of None \<Rightarrow> (m, lg)
                          | Some v \<Rightarrow> (jsmap_delete k m, lg @ [warn k v])))
         (map fst es) (m, lg)
     = (filter (\<lambda>(k, v). k \<notin> fst ` set es) m, lg @ map (\<lambda>(k, v). warn k v) es)"
proof (induction es arbitrary: m lg)
  case Nil
  then show ?case by simp
next
  case (Cons e es)
  obtain k v where e: "e = (k, v)" by (cases e)
  have kv: "map_of m k = Some v" using Cons.prems e by simp
  let ?m = "jsmap_delete k m"
  have d: "distinct (map fst ?m)" using Cons.prems(1) by (simp add: jsmap_delete_def distinct_map_filter)
  have sub: "set es \<subseteq> set ?m" using Cons.prems(2,3) e by (force simp: jsmap_delete_def)
  have de: "distinct (map fst es)" using Cons.prems(3) by simp
  have "filter (\<lambda>(k', v). k' \<notin> fst ` set es) ?m = filter (\<lambda>(k', v). k' \<notin> fst ` set (e # es)) m"
    by (auto simp: jsmap_delete_def e intro!: filter_cong)
  with Cons.IH [OF d sub de, of "lg @ [warn k v]"] kv e show ?case by simp
qed

lemma filter_old_keys:
  assumes "distinct (map fst m)"
  shows "filter (\<lambda>(k, v). k \<notin> fst ` set (filter P m)) m = filter (\<lambda>e. \<not> P e) m"
proof (rule filter_cong [OF refl])
  fix e assume em: "e \<in> set m"
  obtain k v where e: "e = (k, v)" by (cases e)
  have "k \<in> fst ` set (filter P m) \<longleftrightarrow> P (k, v)"
  proof
    assume "k \<in> fst ` set (filter P m)"
    then obtain v' where v': "(k, v') \<in> set m" "P (k, v')" by auto
    with assms em e have "v' = v" by (meson eq_key_imp_eq_value)
    with v' show "P (k, v)" by simp
  next
    assume "P (k, v)" with em e show "k \<in> fst ` set (filter P m)" by force
  qed
  then show "(case e of (k, v) \<Rightarrow> k \<notin> fst ` set (filter P m)) = (\<not> P e)" by (simp add: e)
qed

lemma remove_old_calls_eq:
  assumes "jsmap_ok calls"
  shows "remove_old_calls now (map fst (filter (call_is_old maxAgeMs now) calls)) calls
       = (filter (\<lambda>e. \<not> call_is_old maxAgeMs now e) calls,
          map (call_warning now) (filter (call_is_old maxAgeMs now) calls))"
proof -
  let ?es = "filter (call_is_old maxAgeMs now) calls"
  have d: "distinct (map fst calls)" using assms by (simp add: jsmap_ok_def)
  have w: "(\<lambda>(k, v). CleanedCall k (surveyId v) (now - call_info.createdAt v)) = call_warning now"
    by (auto simp: call_warning_def)
  have "remove_old_calls now (map fst ?es) calls
      = (filter (\<lambda>(k, v). k \<notin> fst ` set ?es) calls,
         [] @ map (\<lambda>(k, v). CleanedCall k (surveyId v) (now - call_info.createdAt v)) ?es)"
    unfolding remove_old_calls_def jsmap_get_def
    by (rule fold_delete_entries) (simp_all add: d distinct_map_filter)
  then show ?thesis by (simp only: filter_old_keys [OF d] w append_Nil)
qed

lemma remove_old_surveys_eq:
  assumes "jsmap_ok surveys"
  shows "remove_old_surveys now (map fst (filter (survey_is_old maxAgeMs now) surveys)) surveys
       = (filter (\<lambda>e. \<not> survey_is_old maxAgeMs now e) surveys,
          map (survey_warning now) (filter (survey_is_old maxAgeMs now) surveys))"
proof -
  let ?es = "filter (survey_is_old maxAgeMs now) surveys"
  have d: "distinct (map fst surveys)" using assms by (simp add: jsmap_ok_def)
  have w: "(\<lambda>(k, v). CleanedSurvey k (callId v) (now - survey_info.createdAt v))
             = survey_warning now"
    by (auto simp: survey_warning_def)
  have "remove_old_surveys now (map fst ?es) surveys
      = (filter (\<lambda>(k, v). k \<notin> fst ` set ?es) surveys,
         [] @ map (\<lambda>(k, v). CleanedSurvey k (callId v) (now - survey_info.createdAt v)) ?es)"
    unfolding remove_old_surveys_def jsmap_get_def
    by (rule fold_delete_entries) (simp_all add: d distinct_map_filter)
  then show ?thesis by (simp only: filter_old_keys [OF d] w append_Nil)
qed

lemma cleanupOldCalls_keeps_maps_ok:
  assumes "jsmap_ok (activeCalls this)" and "jsmap_ok (activeSurveys this)"
  shows "jsmap_ok (activeCalls (fst (snd (cleanupOldCalls maxAgeMs now this))))
       \<and> jsmap_ok (activeSurveys (fst (snd (cleanupOldCalls maxAgeMs now this))))"
proof -
  have c: "(\<lambda>(cid, callInfo). now - call_info.createdAt callInfo > maxAgeMs) = call_is_old maxAgeMs now"
    by (auto simp: call_is_old_def)
  have s: "(\<lambda>(sid, surveyInfo). now - survey_info.createdAt surveyInfo > maxAgeMs)
             = survey_is_old maxAgeMs now"
    by (auto simp: survey_is_old_def)
  show ?thesis
    using assms unfolding cleanupOldCalls_def c s
    by (simp add: remove_old_calls_eq [OF assms(1)] remove_old_surveys_eq [OF assms(2)]
          Let_def jsmap_ok_def distinct_map_filter)
qed

text \<open>
  C3, amended. For maps without duplicate keys, \<open>cleanupOldCalls maxAgeMs\<close> removes from
  \<open>activeCalls\<close> and from \<open>activeSurveys\<close> exactly the entries whose age
  \<open>now - createdAt\<close> exceeds \<open>maxAgeMs\<close> and keeps every other entry in place; it writes
  one warning record per removed entry (and a summary when anything was removed) and
  returns no value.
\<close>

theorem cleanupOldCalls_evicts:
  assumes "jsmap_ok (activeCalls this)" and "jsmap_ok (activeSurveys this)"
  shows "cleanupOldCalls maxAgeMs now this
       = (None,
          this\<lparr>activeCalls := filter (\<lambda>e. \<not> call_is_old maxAgeMs now e) (activeCalls this),
               activeSurveys := filter (\<lambda>e. \<not> survey_is_old maxAgeMs now e) (activeSurveys this)\<rparr>,
          map (call_warning now) (filter (call_is_old maxAgeMs now) (activeCalls this))
          @ map (survey_warning now) (filter (survey_is_old maxAgeMs now) (activeSurveys this))
          @ (if filter (call_is_old maxAgeMs now) (activeCalls this) \<noteq> []
                \<or> filter (survey_is_old maxAgeMs now) (activeSurveys this) \<noteq> []
             then [CleanedSummary
                     (length (filter (call_is_old maxAgeMs now) (activeCalls this)))
                     (length (filter (survey_is_old maxAgeMs now) (activeSurveys this)))]
             else []))"
proof -
  have c: "(\<lambda>(cid, callInfo). now - call_info.createdAt callInfo > maxAgeMs) = call_is_old maxAgeMs now"
    by (auto simp: call_is_old_def)
  have s: "(\<lambda>(sid, surveyInfo). now - survey_info.createdAt surveyInfo > maxAgeMs)
             = survey_is_old maxAgeMs now"
    by (auto simp: survey_is_old_def)
  show ?thesis
    unfolding cleanupOldCalls_def c s
    by (simp add: remove_old_calls_eq [OF assms(1)] remove_old_surveys_eq [OF assms(2)] Let_def)
qed

text \<open>
  With \<open>maxAgeMs\<close> of 30 minutes the entries aged 31 and 45 minutes go and the one aged
  10 minutes stays.
\<close>

theorem cleanupOldCalls_evicts_witness:
  "jsmap_ok (activeCalls aged_client) \<and> jsmap_ok (activeSurveys aged_client)
   \<and> cleanupOldCalls 1800000 2700000 aged_client
     = (None,
        aged_client
          \<lparr>activeCalls :=
             [(''call-a'', \<lparr>surveyId = JInt 1, createdAt = 2100000,
                           customerName = ''Ann'', phoneNumber = ''+15550001''\<rparr>)],
           activeSurveys :=
             [(JInt 1, \<lparr>callId = ''call-a'', createdAt = 2100000,
                        customerName = ''Ann'', phoneNumber = ''+15550001''\<rparr>)]\<rparr>,
        [CleanedCall ''call-b'' (JInt 2) 1860000, CleanedCall ''call-c'' (JInt 3) 2700000,
         CleanedSurvey (JInt 2) ''call-b'' 1860000, CleanedSurvey (JInt 3) ''call-c'' 2700000,
         CleanedSummary 2 2])"
  using cleanupOldCalls_evicts [of aged_client 1800000 2700000]
  by (simp add: aged_client_def jsmap_ok_def call_is_old_def survey_is_old_def
        call_warning_def survey_warning_def)

text \<open>
  C3 as stated fails: on the same input the value returned is \<open>undefined\<close>, not the
  evicted entries (which are the ones of surveys 2 and 3).
\<close>

theorem cleanupOldCalls_returns_nothing:
  "fst (cleanupOldCalls 1800000 2700000 aged_client) = None
   \<and> fst (cleanupOldCalls 1800000 2700000 aged_client)
       \<noteq> Some (filter (call_is_old 1800000 2700000) (activeCalls aged_client),
                filter (survey_is_old 1800000 2700000) (activeSurveys aged_client))
   \<and> map fst (filter (survey_is_old 1800000 2700000) (activeSurveys aged_client))
       = [JInt 2, JInt 3]"
  by (simp add: cleanupOldCalls_def Let_def split_beta aged_client_def survey_is_old_def)

section \<open>Permanent failures\<close>

text \<open>
  C4. When the operation's first attempt fails with HTTP status 400, 401 or 403 and
  \<open>maxRetries \<ge> 1\<close>, \<open>withRetry\<close> calls the operation exactly once, starts no timer, and
  throws that very error; the state is the one the failed attempt left.
\<close>

theorem withRetry_permanent:
  assumes "1 \<le> maxRetries" and "operation s = (Inl error, s')" and "permanent_status error"
  shows "withRetry operation maxRetries baseDelay rnd s = (Inl (Some error), s', [Invoked 1])
       \<and> invocations (snd (snd (withRetry operation maxRetries baseDelay rnd s))) = 1
       \<and> sleeps (snd (snd (withRetry operation maxRetries baseDelay rnd s))) = []"
proof -
  have "withRetry operation maxRetries baseDelay rnd s = (Inl (Some error), s', [Invoked 1])"
    unfolding withRetry_def using assms
    by (intro retry_loop_throws [where rethrow = True]) (simp_all add: withRetry_noRetry_def)
  then show ?thesis by (simp add: invocations_def sleeps_def)
qed

text \<open>A request the service rejects with 401, with three attempts allowed.\<close>

theorem withRetry_permanent_witness:
  "(1::int) \<le> 3 \<and> permanent_status \<lparr>status = Some 401, message = Text ''rejected'', code = None\<rparr>
   \<and> withRetry (rejecting 401) 3 2000 half_jitter (0::nat)
       = (Inl (Some \<lparr>status = Some 401, message = Text ''rejected'', code = None\<rparr>), 0, [Invoked 1])"
  using withRetry_permanent [of 3 "rejecting 401" "0::nat"
      "\<lparr>status = Some 401, message = Text ''rejected'', code = None\<rparr>" 0 2000 half_jitter]
  by (simp add: rejecting_def permanent_status_def)

section \<open>Transient failures\<close>

lemma retry_loop_transient:
  "\<forall>s e s'. operation s = (Inl e, s') \<longrightarrow> noRetry e = Inr False \<Longrightarrow> attempt \<le> maxRetries \<Longrightarrow>
     \<exists>k. run_ok operation maxRetries baseDelay rnd attempt s
           (retry_loop noRetry operation maxRetries baseDelay rnd attempt lastError s) k"
proof (induction noRetry operation maxRetries baseDelay rnd attempt lastError s rule: retry_loop.induct)
  case (1 noRetry operation maxRetries baseDelay rnd attempt lastError s)
  obtain r s' where op: "operation s = (r, s')" by (cases "operation s")
  show ?case
  proof (cases r)
    case (Inr v)
    with op "1.prems" show ?thesis
      by (intro exI [of _ 0]) (simp add: run_ok_def retry_loop_returns)
  next
    case (Inl e)
    note e = this
    have nr: "noRetry e = Inr False" using "1.prems"(1) op e by blast
    show ?thesis
    proof (cases "attempt = maxRetries")
      case True
      with op e nr "1.prems"(2) show ?thesis
        by (intro exI [of _ 0])
          (simp add: run_ok_def retry_loop_throws [where rethrow = False and e = e])
    next
      case False
      with "1.prems" have lt: "attempt + 1 \<le> maxRetries" by simp
      have opx: "(Inl e, s') = operation s" using op e by simp
      have "\<exists>k. run_ok operation maxRetries baseDelay rnd (attempt + 1) s'
           (retry_loop noRetry operation maxRetries baseDelay rnd (attempt + 1) (Some e) s') k"
        by (rule "1.IH" [OF "1.prems"(2) opx refl nr _ False refl "1.prems"(1) lt]) simp
      then obtain k where k: "run_ok operation maxRetries baseDelay rnd (attempt + 1) s'
           (retry_loop noRetry operation maxRetries baseDelay rnd (attempt + 1) (Some e) s') k"
        by blast
      have unf: "retry_loop noRetry operation maxRetries baseDelay rnd attempt lastError s =
         (case retry_loop noRetry operation maxRetries baseDelay rnd (attempt + 1) (Some e) s' of
            (r, s'', evs) \<Rightarrow> (r, s'', Invoked attempt
                # Slept (backoff baseDelay attempt + rnd attempt * 1000) # evs))"
        using lt op e nr by (intro retry_loop_retries) simp_all
      have "run_ok operation maxRetries baseDelay rnd attempt s
           (retry_loop noRetry operation maxRetries baseDelay rnd attempt lastError s) (Suc k)"
        using k op e unfolding unf run_ok_def
        by (auto split: prod.splits sum.splits simp: less_Suc_eq_0_disj)
      then show ?thesis by blast
    qed
  qed
qed

lemma invocations_retry_trace: "invocations (retry_trace baseDelay rnd attempt k) = Suc k"
  by (induction k arbitrary: attempt) (simp_all add: invocations_def)

lemma sleeps_retry_trace:
  "sleeps (retry_trace baseDelay rnd attempt k)
     = map (\<lambda>i. backoff baseDelay (attempt + int i) + rnd (attempt + int i) * 1000) [0..<k]"
proof (induction k arbitrary: attempt)
  case 0
  show ?case by (simp add: sleeps_def)
next
  case (Suc k)
  have "sleeps (retry_trace baseDelay rnd attempt (Suc k))
      = (backoff baseDelay attempt + rnd attempt * 1000)
          # sleeps (retry_trace baseDelay rnd (attempt + 1) k)"
    by (simp add: sleeps_def)
  also have "\<dots> = (backoff baseDelay attempt + rnd attempt * 1000)
          # map (\<lambda>i. backoff baseDelay (attempt + 1 + int i) + rnd (attempt + 1 + int i) * 1000) [0..<k]"
    by (simp only: Suc.IH)
  also have "\<dots> = map (\<lambda>i. backoff baseDelay (attempt + int i) + rnd (attempt + int i) * 1000) [0..<Suc k]"
    by (simp add: upt_rec [of 0 "Suc k"] map_Suc_upt [symmetric] add.commute add.left_commute del: upt_Suc)
  finally show ?case .
qed

lemma run_ok_backoff_run:
  "run_ok operation maxRetries baseDelay rnd 1 s out k \<Longrightarrow>
   backoff_run operation maxRetries baseDelay rnd s out"
  by (auto simp: run_ok_def backoff_run_def invocations_retry_trace Let_def list_all_iff
           split: sum.splits)

lemma jitter_bounded_retry_trace:
  assumes "\<forall>k. 0 \<le> rnd k \<and> rnd k < 1"
  shows "jitter_bounded baseDelay (retry_trace baseDelay rnd 1 k)"
proof -
  have "\<And>i. 0 \<le> rnd i * 1000 \<and> rnd i * 1000 < 1000" using assms by simp
  then show ?thesis
    unfolding jitter_bounded_def sleeps_retry_trace list_all_iff
    by (auto simp: enumerate_eq_zip in_set_zip add.commute)
qed

lemma retry_loop_backoff_run:
  assumes "\<forall>s e s'. operation s = (Inl e, s') \<longrightarrow> noRetry e = Inr False" and "1 \<le> maxRetries"
  shows "backoff_run operation maxRetries baseDelay rnd s
           (retry_loop noRetry operation maxRetries baseDelay rnd 1 None s)"
  using retry_loop_transient [of operation noRetry 1 maxRetries baseDelay rnd s None] assms
  by (blast intro: run_ok_backoff_run)

lemma retry_loop_jitter:
  assumes "\<forall>s e s'. operation s = (Inl e, s') \<longrightarrow> noRetry e = Inr False" and "1 \<le> maxRetries"
    and "\<forall>k. 0 \<le> rnd k \<and> rnd k < 1"
  shows "jitter_bounded baseDelay
           (snd (snd (retry_loop noRetry operation maxRetries baseDelay rnd 1 None s)))"
proof -
  obtain k where "run_ok operation maxRetries baseDelay rnd 1 s
       (retry_loop noRetry operation maxRetries baseDelay rnd 1 None s) k"
    using retry_loop_transient [of operation noRetry 1 maxRetries baseDelay rnd s None] assms
    by blast
  then show ?thesis by (simp add: run_ok_def jitter_bounded_retry_trace assms(3))
qed

lemma retry_loop_twice_then_success:
  assumes "\<forall>s e s'. operation s = (Inl e, s') \<longrightarrow> noRetry e = Inr False"
    and f1: "isl (fst (operation s))"
    and f2: "isl (fst (operation (iterate_op operation 1 s)))"
    and ok: "fst (operation (iterate_op operation 2 s)) = Inr v"
  shows "retry_loop noRetry operation 3 baseDelay rnd 1 None s
          = (Inr v, iterate_op operation 3 s,
             [Invoked 1, Slept (backoff baseDelay 1 + rnd 1 * 1000),
              Invoked 2, Slept (backoff baseDelay 2 + rnd 2 * 1000), Invoked 3])"
proof -
  obtain e1 s1 where o1: "operation s = (Inl e1, s1)"
    using f1 by (cases "operation s") (auto simp: isl_def)
  obtain e2 s2 where o2: "operation s1 = (Inl e2, s2)"
    using f2 o1 by (cases "operation s1") (auto simp: isl_def)
  obtain s3 where o3: "operation s2 = (Inr v, s3)"
    using ok o1 o2 by (cases "operation s2") (auto simp: numeral_2_eq_2)
  have it: "iterate_op operation 3 s = s3"
    using o1 o2 o3 by (simp add: numeral_3_eq_3)
  have n1: "noRetry e1 = Inr False" and n2: "noRetry e2 = Inr False"
    using assms(1) o1 o2 by blast+
  have r3: "retry_loop noRetry operation 3 baseDelay rnd 3 (Some e2) s2 = (Inr v, s3, [Invoked 3])"
    using o3 by (simp add: retry_loop_returns)
  have r2: "retry_loop noRetry operation 3 baseDelay rnd 2 (Some e1) s1
      = (Inr v, s3, [Invoked 2, Slept (backoff baseDelay 2 + rnd 2 * 1000), Invoked 3])"
    using retry_loop_retries [of 2 3 operation s1 e2 s2 noRetry baseDelay rnd "Some e1"] o2 n2 r3
    by simp
  show ?thesis
    using retry_loop_retries [of 1 3 operation s e1 s1 noRetry baseDelay rnd None] o1 n1 r2
    by (simp add: it)
qed

lemma backoff_mono: "0 \<le> baseDelay \<Longrightarrow> backoff baseDelay 1 \<le> backoff baseDelay 2"
  by (simp add: backoff_def)

lemma flaky_transient:
  "\<forall>s e s'. flaky s = (Inl e, s') \<longrightarrow>
     \<not> permanent_status e \<and> already_being_processed e = Inr False"
  by (simp add: flaky_def Error_def permanent_status_def already_being_processed_def
        message_includes_def)

lemma flaky_transient_db: "\<forall>s e s'. flaky s = (Inl e, s') \<longrightarrow> \<not> constraint_violation e"
  by (simp add: flaky_def Error_def constraint_violation_def)

text \<open>
  C5. Let \<open>maxRetries \<ge> 1\<close>, \<open>baseDelay \<ge> 0\<close> and every \<open>Math.random()\<close> lie in
  \<open>[0, 1)\<close>. For an operation each of whose failures the helper classifies as one to
  retry (for \<open>RetellClient.withRetry\<close>: the status is not 400, 401 or 403 and the test
  for an \<open>already being processed\<close> message answers no, as it does on an error without
  message and on a message text without that phrase; for \<open>DatabaseClient.withRetry\<close>:
  the SQLSTATE is not 23505 or 23503), a
  call of the helper invokes the operation at least once and at most \<open>maxRetries\<close> times,
  sleeps \<open>baseDelay * 2 ^ (attempt - 1)\<close> plus a jitter in \<open>[0, 1000)\<close> after each failed
  attempt but the last, returns the value of the first attempt that succeeds, and throws
  the error of attempt \<open>maxRetries\<close> when that one fails too. In particular, with
  \<open>maxRetries = 3\<close> an operation that fails twice and then succeeds yields its value
  after exactly two sleeps, and the second delay before jitter is at least the first.
\<close>

theorem withRetry_transient:
  fixes operation :: "'s \<Rightarrow> (js_error + 'a) \<times> 's"
  assumes "1 \<le> maxRetries" and "0 \<le> baseDelay" and "\<forall>k. 0 \<le> rnd k \<and> rnd k < 1"
  shows "((\<forall>s e s'. operation s = (Inl e, s') \<longrightarrow>
              \<not> permanent_status e \<and> already_being_processed e = Inr False) \<longrightarrow>
            backoff_run operation maxRetries baseDelay rnd s
              (withRetry operation maxRetries baseDelay rnd s)
          \<and> jitter_bounded baseDelay (snd (snd (withRetry operation maxRetries baseDelay rnd s)))
          \<and> (maxRetries = 3 \<and> isl (fst (operation s))
               \<and> isl (fst (operation (iterate_op operation 1 s)))
               \<and> fst (operation (iterate_op operation 2 s)) = Inr v \<longrightarrow>
              withRetry operation maxRetries baseDelay rnd s
                = (Inr v, iterate_op operation 3 s,
                   [Invoked 1, Slept (backoff baseDelay 1 + rnd 1 * 1000),
                    Invoked 2, Slept (backoff baseDelay 2 + rnd 2 * 1000), Invoked 3])
              \<and> backoff baseDelay 1 \<le> backoff baseDelay 2))
       \<and> ((\<forall>s e s'. operation s = (Inl e, s') \<longrightarrow> \<not> constraint_violation e) \<longrightarrow>
            backoff_run operation maxRetries baseDelay rnd s
              (db_withRetry operation maxRetries baseDelay rnd s)
          \<and> jitter_bounded baseDelay (snd (snd (db_withRetry operation maxRetries baseDelay rnd s)))
          \<and> (maxRetries = 3 \<and> isl (fst (operation s))
               \<and> isl (fst (operation (iterate_op operation 1 s)))
               \<and> fst (operation (iterate_op operation 2 s)) = Inr v \<longrightarrow>
              db_withRetry operation maxRetries baseDelay rnd s
                = (Inr v, iterate_op operation 3 s,
                   [Invoked 1, Slept (backoff baseDelay 1 + rnd 1 * 1000),
                    Invoked 2, Slept (backoff baseDelay 2 + rnd 2 * 1000), Invoked 3])
              \<and> backoff baseDelay 1 \<le> backoff baseDelay 2))"
proof (intro conjI impI)
  assume tr: "\<forall>s e s'. operation s = (Inl e, s') \<longrightarrow>
      \<not> permanent_status e \<and> already_being_processed e = Inr False"
  then have tr': "\<forall>s e s'. operation s = (Inl e, s') \<longrightarrow> withRetry_noRetry e = Inr False"
    by (simp add: withRetry_noRetry_def)
  show "backoff_run operation maxRetries baseDelay rnd s
          (withRetry operation maxRetries baseDelay rnd s)"
    unfolding withRetry_def using tr' assms(1) by (rule retry_loop_backoff_run)
  show "jitter_bounded baseDelay (snd (snd (withRetry operation maxRetries baseDelay rnd s)))"
    unfolding withRetry_def using tr' assms(1,3) by (rule retry_loop_jitter)
  show "backoff baseDelay 1 \<le> backoff baseDelay 2" using assms(2) by (rule backoff_mono)
  assume h: "maxRetries = 3 \<and> isl (fst (operation s))
      \<and> isl (fst (operation (iterate_op operation 1 s)))
      \<and> fst (operation (iterate_op operation 2 s)) = Inr v"
  show "withRetry operation maxRetries baseDelay rnd s
      = (Inr v, iterate_op operation 3 s,
         [Invoked 1, Slept (backoff baseDelay 1 + rnd 1 * 1000),
          Invoked 2, Slept (backoff baseDelay 2 + rnd 2 * 1000), Invoked 3])"
    unfolding withRetry_def using h retry_loop_twice_then_success [OF tr'] by blast
next
  assume tr: "\<forall>s e s'. operation s = (Inl e, s') \<longrightarrow> \<not> constraint_violation e"
  then have tr': "\<forall>s e s'. operation s = (Inl e, s') \<longrightarrow> db_withRetry_noRetry e = Inr False"
    by (simp add: db_withRetry_noRetry_def)
  show "backoff_run operation maxRetries baseDelay rnd s
          (db_withRetry operation maxRetries baseDelay rnd s)"
    unfolding db_withRetry_def using tr' assms(1) by (rule retry_loop_backoff_run)
  show "jitter_bounded baseDelay (snd (snd (db_withRetry operation maxRetries baseDelay rnd s)))"
    unfolding db_withRetry_def using tr' assms(1,3) by (rule retry_loop_jitter)
  show "backoff baseDelay 1 \<le> backoff baseDelay 2" using assms(2) by (rule backoff_mono)
  assume h: "maxRetries = 3 \<and> isl (fst (operation s))
      \<and> isl (fst (operation (iterate_op operation 1 s)))
      \<and> fst (operation (iterate_op operation 2 s)) = Inr v"
  show "db_withRetry operation maxRetries baseDelay rnd s
      = (Inr v, iterate_op operation 3 s,
         [Invoked 1, Slept (backoff baseDelay 1 + rnd 1 * 1000),
          Invoked 2, Slept (backoff baseDelay 2 + rnd 2 * 1000), Invoked 3])"
    unfolding db_withRetry_def using h retry_loop_twice_then_success [OF tr'] by blast
qed

text \<open>
  Two connection resets, then success; base delay 2000 ms, jitter 500 ms: the sleeps
  last 2500 and 4500 ms.
\<close>

theorem withRetry_transient_witness:
  "(1::int) \<le> 3 \<and> (0::real) \<le> 2000 \<and> 0 \<le> half_jitter 1 \<and> half_jitter 1 < 1
   \<and> isl (fst (flaky 0)) \<and> isl (fst (flaky (iterate_op flaky 1 0)))
   \<and> fst (flaky (iterate_op flaky 2 0)) = Inr ''accepted''
   \<and> withRetry flaky 3 2000 half_jitter 0
       = (Inr ''accepted'', 3, [Invoked 1, Slept 2500, Invoked 2, Slept 4500, Invoked 3])
   \<and> db_withRetry flaky 3 2000 half_jitter 0
       = (Inr ''accepted'', 3, [Invoked 1, Slept 2500, Invoked 2, Slept 4500, Invoked 3])
"
  using withRetry_transient [of 3 2000 half_jitter flaky 0 "''accepted''"]
    flaky_transient flaky_transient_db
  by (simp add: flaky_def half_jitter_def backoff_def numeral_2_eq_2 numeral_3_eq_3)

section \<open>Retrying during shutdown\<close>

lemma retry_loop_flag:
  fixes operation :: "RetellCaller \<Rightarrow> ('e + 'a) \<times> RetellCaller"
  shows "\<forall>s b. operation (s\<lparr>isShuttingDown := b\<rparr>)
             = (fst (operation s), (snd (operation s))\<lparr>isShuttingDown := b\<rparr>) \<Longrightarrow>
   retry_loop noRetry operation maxRetries baseDelay rnd attempt lastError (s\<lparr>isShuttingDown := b\<rparr>)
     = (case retry_loop noRetry operation maxRetries baseDelay rnd attempt lastError s of
          (r, s', evs) \<Rightarrow> (r, s'\<lparr>isShuttingDown := b\<rparr>, evs))"
proof (induction noRetry operation maxRetries baseDelay rnd attempt lastError s rule: retry_loop.induct)
  case (1 noRetry operation maxRetries baseDelay rnd attempt lastError s)
  let ?sb = "s\<lparr>isShuttingDown := b\<rparr>"
  obtain r s' where op: "operation s = (r, s')" by (cases "operation s")
  have opb: "operation ?sb = (r, s'\<lparr>isShuttingDown := b\<rparr>)"
    using "1.prems" op by simp
  show ?case
  proof (cases "attempt \<le> maxRetries")
    case False
    then show ?thesis by (simp add: retry_loop_skipped)
  next
    case le: True
    show ?thesis
    proof (cases r)
      case (Inr v)
      with le op opb show ?thesis by (simp add: retry_loop_returns)
    next
      case (Inl e)
      show ?thesis
      proof (cases "noRetry e")
        case test: (Inl testError)
        with le op opb Inl show ?thesis
          by (simp add: retry_loop_test_throws [where e = e])
      next
        case test: (Inr rethrow)
        show ?thesis
        proof (cases "rethrow \<or> attempt = maxRetries")
          case True
          with le op opb Inl test show ?thesis
            by (simp add: retry_loop_throws [where e = e and rethrow = rethrow])
        next
          case False
          then have nr: "noRetry e = Inr False" and ne: "attempt \<noteq> maxRetries"
            using test by simp_all
          with le have lt: "attempt < maxRetries" by simp
        have opx: "(Inl e, s') = operation s" using op Inl by simp
        have ih: "retry_loop noRetry operation maxRetries baseDelay rnd (attempt + 1) (Some e)
                    (s'\<lparr>isShuttingDown := b\<rparr>)
                = (case retry_loop noRetry operation maxRetries baseDelay rnd (attempt + 1) (Some e) s' of
                     (r, s'', evs) \<Rightarrow> (r, s''\<lparr>isShuttingDown := b\<rparr>, evs))"
          by (rule "1.IH" [OF le opx refl nr _ ne refl "1.prems"]) simp
        have u1: "retry_loop noRetry operation maxRetries baseDelay rnd attempt lastError s
            = (case retry_loop noRetry operation maxRetries baseDelay rnd (attempt + 1) (Some e) s' of
                 (r, s'', evs) \<Rightarrow>
                   (r, s'', Invoked attempt
                      # Slept (backoff baseDelay attempt + rnd attempt * 1000) # evs))"
          using lt op Inl nr by (intro retry_loop_retries) simp_all
        have u2: "retry_loop noRetry operation maxRetries baseDelay rnd attempt lastError ?sb
            = (case retry_loop noRetry operation maxRetries baseDelay rnd (attempt + 1) (Some e)
                      (s'\<lparr>isShuttingDown := b\<rparr>) of
                 (r, s'', evs) \<Rightarrow>
                   (r, s'', Invoked attempt
                      # Slept (backoff baseDelay attempt + rnd attempt * 1000) # evs))"
          using lt opb Inl nr by (intro retry_loop_retries) simp_all
        show ?thesis
          unfolding u1 u2 ih by (simp split: prod.splits)
        qed
      qed
    qed
  qed
qed

text \<open>
  C6, amended. The retry helpers do not read the shutdown flag. For an operation that
  itself neither reads nor writes the flag, \<open>withRetry\<close> and \<open>retryOperation\<close> make the
  same attempts, sleep the same delays and end with the same outcome whatever the flag
  is, and leave the flag as they found it.
\<close>

theorem retry_ignores_shutdown_flag:
  fixes operation :: "RetellCaller \<Rightarrow> (js_error + 'a) \<times> RetellCaller"
  assumes "\<forall>s b. operation (s\<lparr>isShuttingDown := b\<rparr>)
             = (fst (operation s), (snd (operation s))\<lparr>isShuttingDown := b\<rparr>)"
  shows "withRetry operation maxRetries baseDelay rnd (s\<lparr>isShuttingDown := b\<rparr>)
           = (case withRetry operation maxRetries baseDelay rnd s of
                (r, s', evs) \<Rightarrow> (r, s'\<lparr>isShuttingDown := b\<rparr>, evs))
       \<and> retryOperation operation maxRetries baseDelay rnd (s\<lparr>isShuttingDown := b\<rparr>)
           = (case retryOperation operation maxRetries baseDelay rnd s of
                (r, s', evs) \<Rightarrow> (r, s'\<lparr>isShuttingDown := b\<rparr>, evs))"
  unfolding withRetry_def retryOperation_def using assms by (simp add: retry_loop_flag)

text \<open>An operation that times out, retried with the flag cleared.\<close>

theorem retry_ignores_shutdown_flag_witness:
  "timing_out (shutting_down\<lparr>isShuttingDown := False\<rparr>)
      = (fst (timing_out shutting_down), (snd (timing_out shutting_down))\<lparr>isShuttingDown := False\<rparr>)
   \<and> retryOperation timing_out 3 5000 half_jitter (shutting_down\<lparr>isShuttingDown := False\<rparr>)
      = (Inl (Some (Error ''ETIMEDOUT'')), shutting_down\<lparr>isShuttingDown := False\<rparr>,
         [Invoked 1, Slept 5500, Invoked 2, Slept 10500, Invoked 3])"
  using retry_ignores_shutdown_flag [where operation = timing_out and maxRetries = 3
      and baseDelay = 5000 and rnd = half_jitter and s = shutting_down and b = False]
  by (simp add: timing_out_def retryOperation_def retry_loop.simps half_jitter_def)

text \<open>
  C6 as stated fails: with the flag set before the helper is even called, an operation
  that keeps timing out is still attempted three times, and both backoff sleeps are
  started and waited out, by \<open>retryOperation\<close> and by \<open>withRetry\<close> alike.
\<close>

theorem retry_sleeps_through_shutdown:
  "isShuttingDown shutting_down
   \<and> retryOperation timing_out 3 5000 half_jitter shutting_down
       = (Inl (Some (Error ''ETIMEDOUT'')), shutting_down,
          [Invoked 1, Slept 5500, Invoked 2, Slept 10500, Invoked 3])
   \<and> withRetry timing_out 3 2000 half_jitter shutting_down
       = (Inl (Some (Error ''ETIMEDOUT'')), shutting_down,
          [Invoked 1, Slept 2500, Invoked 2, Slept 4500, Invoked 3])"
  by (simp add: timing_out_def retryOperation_def withRetry_def retry_loop.simps half_jitter_def
        shutting_down_def Error_def permanent_status_def already_being_processed_def
        withRetry_noRetry_def message_includes_def)

section \<open>The claim query\<close>

lemma where_clause_eligible:
  "tShards \<noteq> 0 \<Longrightarrow>
   where_clause sIndex tShards excluded row = Some (eligible sIndex tShards excluded row)"
  by (auto simp: where_clause_def eligible_def sql_shard_condition_def sql_rem_def
        shouldProcessId_def js_rem_def)

lemma urgency_tier_claimed: "urgency_tier frustration = Suc (claimed_tier frustration)"
  by (simp add: urgency_tier_def claimed_tier_def)

lemma order_key_ranks: "order_key r \<le> order_key r' \<longleftrightarrow> ranks_before r r'"
  by (auto simp: order_key_def ranks_before_def created_at_desc_def urgency_tier_claimed Let_def
        split: option.splits)

lemma ranks_before_dated:
  "sr_created_at (fst r) \<noteq> None \<Longrightarrow> ranks_before r r' \<Longrightarrow> claimed_before r r'"
  by (auto simp: ranks_before_def claimed_before_def Let_def split: option.splits)

lemma first_of_sorted:
  assumes "filter Q (sort_key f (filter P ys)) = r # rest"
  shows "r \<in> set ys \<and> P r \<and> Q r \<and> (\<forall>r' \<in> set ys. P r' \<and> Q r' \<longrightarrow> f r \<le> f r')"
proof -
  let ?xs = "filter Q (sort_key f (filter P ys))"
  have s: "sorted (map f ?xs)" by (rule sorted_filter) simp
  have m: "set ?xs = {x \<in> set ys. P x \<and> Q x}" by auto
  have r: "r \<in> set ?xs" using assms by simp
  have le: "\<forall>x \<in> set ?xs. f r \<le> f x" using s unfolding assms by auto
  show ?thesis using r le unfolding m by blast
qed

lemma sample_claim:
  "getNextSurveyResponse (Inr sample_db) 1 2 (tracked_as (JInt 4))
     = Inr (Some (row_six, customer_two))"
  by code_simp

lemma sample_facts:
  "parameters_in_range 1 2 (activeSurveyIds (tracked_as (JInt 4)))
   \<and> locked_survey_responses sample_db = [] \<and> locked_customers sample_db = []
   \<and> list_all (\<lambda>r. sr_created_at (fst r) \<noteq> None)
        (filter (eligible 1 2 (activeSurveyIds (tracked_as (JInt 4)))) (joined_rows sample_db))
   \<and> eligible 1 2 (activeSurveyIds (tracked_as (JInt 4))) (row_six, customer_two)
   \<and> eligible 1 2 (activeSurveyIds (tracked_as (JInt 4))) (row_eight, customer_one)
   \<and> ranks_before (row_six, customer_two) (row_eight, customer_one)
   \<and> claimed_before (row_six, customer_two) (row_eight, customer_one)"
  by code_simp

lemma sample_none: "getNextSurveyResponse (Inr sample_db) 1 2 all_in_flight = Inr None"
  by code_simp

lemma bind_int4_None: "bind_int4 n = None \<longleftrightarrow> int4 n"
  by (simp add: bind_int4_def)

lemma map_filter_bind_int4: "List.map_filter bind_int4 ns = [] \<longleftrightarrow> list_all int4 ns"
proof (induction ns)
  case Nil
  show ?case by (simp add: List.map_filter_simps)
next
  case (Cons n ns)
  show ?case
  proof (cases "bind_int4 n")
    case None
    then have "int4 n" by (simp add: bind_int4_None)
    with None Cons show ?thesis by (simp add: List.map_filter_simps)
  next
    case (Some error)
    then have "\<not> int4 n" using bind_int4_None [of n] by simp
    with Some show ?thesis by (simp add: List.map_filter_simps)
  qed
qed

lemma bind_parameters_None:
  "bind_parameters sIndex tShards excluded = None
     \<longleftrightarrow> parameters_in_range sIndex tShards excluded"
proof -
  have "List.map_filter bind_int4 (sIndex # tShards # excluded) = []
          \<longleftrightarrow> int4 sIndex \<and> int4 tShards \<and> list_all int4 excluded"
    using map_filter_bind_int4 [of "sIndex # tShards # excluded"] by simp
  then show ?thesis
    by (auto simp: bind_parameters_def parameters_in_range_def split: list.splits)
qed

lemma claim_query_cases:
  fixes db :: "'p database"
  assumes "1 \<le> sIndex" and "sIndex \<le> tShards"
  shows "claim_query db sIndex tShards excluded =
     (case bind_parameters sIndex tShards excluded of
        Some error \<Rightarrow> Inl error
      | None \<Rightarrow>
          Inr (take 1 (filter (\<lambda>row. \<not> row_locked db row)
                 (sort_key order_key
                    (filter (eligible sIndex tShards excluded) (joined_rows db))))))"
proof -
  have t: "tShards \<noteq> 0" using assms by simp
  show ?thesis
    by (simp add: claim_query_def where_clause_eligible [OF t] list_ex_iff
          split: option.splits)
qed

text \<open>
  C7, amended. For a shard pair with \<open>1 \<le> index \<le> total\<close>, any database and any
  in-flight map, the query of \<open>getNextSurveyResponse\<close> yields at most one row, and the
  method returns that row, or \<open>null\<close> when the result is empty; the query does not
  fail when the parameters fit a PostgreSQL integer. A returned row is a row of the join
  that is eligible (not processed, not marked sent, phone number present and validated, id
  in this shard, id not among the excluded ids) and not locked by another transaction, and
  among the rows that are eligible and not locked it comes first in the query's order:
  urgency tier first (\<open>extremely\<close>, then \<open>very\<close>, then \<open>frustrated\<close>, then the rest),
  within a tier the rows without \<open>created_at\<close> and then the most recent \<open>created_at\<close>.
  \<open>null\<close> means that no row is eligible and unlocked. When no lock is held and every
  eligible row has a \<open>created_at\<close>, the returned row is first among all eligible rows in
  the order \<open>tier, then most recent\<close>.
\<close>

theorem getNextSurveyResponse_claims_best:
  fixes db :: "'p database" and surveys :: "(js_value, 'v) js_map"
  assumes "1 \<le> sIndex" and "sIndex \<le> tShards"
  shows "(\<forall>rows. claim_query db sIndex tShards (activeSurveyIds surveys) = Inr rows \<longrightarrow>
            length rows \<le> 1
          \<and> getNextSurveyResponse (Inr db) sIndex tShards surveys
              = Inr (case rows of [] \<Rightarrow> None | row # rest \<Rightarrow> Some row))
       \<and> (parameters_in_range sIndex tShards (activeSurveyIds surveys) \<longrightarrow>
            (\<exists>res. getNextSurveyResponse (Inr db) sIndex tShards surveys = Inr res))
       \<and> (\<forall>row. getNextSurveyResponse (Inr db) sIndex tShards surveys = Inr (Some row) \<longrightarrow>
            row \<in> set (joined_rows db)
          \<and> eligible sIndex tShards (activeSurveyIds surveys) row
          \<and> \<not> row_locked db row
          \<and> (\<forall>r \<in> set (joined_rows db).
                eligible sIndex tShards (activeSurveyIds surveys) r \<and> \<not> row_locked db r
                \<longrightarrow> ranks_before row r))
       \<and> (getNextSurveyResponse (Inr db) sIndex tShards surveys = Inr None \<longrightarrow>
            \<not> list_ex (\<lambda>r. eligible sIndex tShards (activeSurveyIds surveys) r
                           \<and> \<not> row_locked db r) (joined_rows db))
       \<and> (locked_survey_responses db = [] \<and> locked_customers db = []
          \<and> list_all (\<lambda>r. sr_created_at (fst r) \<noteq> None)
               (filter (eligible sIndex tShards (activeSurveyIds surveys)) (joined_rows db))
          \<longrightarrow>
            (\<forall>row. getNextSurveyResponse (Inr db) sIndex tShards surveys = Inr (Some row) \<longrightarrow>
               (\<forall>r \<in> set (joined_rows db).
                  eligible sIndex tShards (activeSurveyIds surveys) r
                  \<longrightarrow> claimed_before row r)))"
proof -
  let ?ex = "activeSurveyIds surveys"
  let ?P = "eligible sIndex tShards ?ex"
  let ?Q = "\<lambda>row. \<not> row_locked db row"
  let ?xs = "filter ?Q (sort_key order_key (filter ?P (joined_rows db)))"
  let ?get = "getNextSurveyResponse (Inr db) sIndex tShards surveys"
  note q = claim_query_cases [OF assms, of db ?ex]
  have one: "\<forall>rows. claim_query db sIndex tShards ?ex = Inr rows \<longrightarrow>
       length rows \<le> 1 \<and> ?get = Inr (case rows of [] \<Rightarrow> None | row # rest \<Rightarrow> Some row)"
    by (auto simp: q getNextSurveyResponse_def split: option.splits list.splits)
  have ok: "parameters_in_range sIndex tShards ?ex \<longrightarrow> (\<exists>res. ?get = Inr res)"
    using bind_parameters_None [of sIndex tShards ?ex]
    by (auto simp: q getNextSurveyResponse_def split: list.splits)
  have some: "?get = Inr (Some row) \<Longrightarrow> \<exists>rest. ?xs = row # rest" for row
    by (cases ?xs) (auto simp: q getNextSurveyResponse_def split: option.splits)
  have none: "?get = Inr None \<Longrightarrow> ?xs = []"
    by (cases ?xs) (auto simp: q getNextSurveyResponse_def split: option.splits)
  have best: "?get = Inr (Some row) \<Longrightarrow>
      row \<in> set (joined_rows db) \<and> ?P row \<and> ?Q row
      \<and> (\<forall>r \<in> set (joined_rows db). ?P r \<and> ?Q r \<longrightarrow> ranks_before row r)" for row
  proof -
    assume "?get = Inr (Some row)"
    then obtain rest where "?xs = row # rest" using some by blast
    from first_of_sorted [OF this] show ?thesis by (simp add: order_key_ranks)
  qed
  have empty: "?get = Inr None \<longrightarrow> \<not> list_ex (\<lambda>r. ?P r \<and> ?Q r) (joined_rows db)"
  proof
    assume "?get = Inr None"
    then have "?xs = []" by (rule none)
    then have "\<forall>r \<in> set (joined_rows db). \<not> (?P r \<and> ?Q r)"
      by (auto simp: filter_empty_conv)
    then show "\<not> list_ex (\<lambda>r. ?P r \<and> ?Q r) (joined_rows db)" by (simp add: list_ex_iff)
  qed
  have free: "locked_survey_responses db = [] \<and> locked_customers db = [] \<Longrightarrow> ?Q r" for r
    by (simp add: row_locked_def)
  have claimed: "locked_survey_responses db = [] \<and> locked_customers db = []
      \<and> list_all (\<lambda>r. sr_created_at (fst r) \<noteq> None) (filter ?P (joined_rows db))
      \<longrightarrow> (\<forall>row. ?get = Inr (Some row) \<longrightarrow>
             (\<forall>r \<in> set (joined_rows db). ?P r \<longrightarrow> claimed_before row r))"
  proof (intro impI allI ballI)
    fix row r
    assume h: "locked_survey_responses db = [] \<and> locked_customers db = []
      \<and> list_all (\<lambda>r. sr_created_at (fst r) \<noteq> None) (filter ?P (joined_rows db))"
      and g: "?get = Inr (Some row)" and r: "r \<in> set (joined_rows db)" and e: "?P r"
    from best [OF g] have b: "row \<in> set (joined_rows db)" "?P row"
      "\<forall>r \<in> set (joined_rows db). ?P r \<and> ?Q r \<longrightarrow> ranks_before row r" by simp_all
    have "row \<in> set (filter ?P (joined_rows db))" using b(1,2) by simp
    moreover have "\<forall>r \<in> set (filter ?P (joined_rows db)). sr_created_at (fst r) \<noteq> None"
      using h unfolding list_all_iff by blast
    ultimately have d: "sr_created_at (fst row) \<noteq> None" by blast
    have "ranks_before row r" using b(3) r e free h by blast
    with d show "claimed_before row r" by (rule ranks_before_dated)
  qed
  show ?thesis using one ok best empty claimed by blast
qed

text \<open>
  Shard 1 of 2 with survey 4 in flight, no locks, every row dated: rows 6 and 8 are
  eligible, and row 6 (tier 1) is claimed before the more recent row 8 (tier 2). With
  surveys 4, 6 and 8 in flight nothing is left to claim and the method returns \<open>null\<close>.
\<close>

theorem getNextSurveyResponse_claims_best_witness:
  "(1::int) \<le> 1 \<and> (1::int) \<le> 2
   \<and> parameters_in_range 1 2 (activeSurveyIds (tracked_as (JInt 4)))
   \<and> locked_survey_responses sample_db = [] \<and> locked_customers sample_db = []
   \<and> list_all (\<lambda>r. sr_created_at (fst r) \<noteq> None)
        (filter (eligible 1 2 (activeSurveyIds (tracked_as (JInt 4)))) (joined_rows sample_db))
   \<and> getNextSurveyResponse (Inr sample_db) 1 2 (tracked_as (JInt 4))
       = Inr (Some (row_six, customer_two))
   \<and> eligible 1 2 (activeSurveyIds (tracked_as (JInt 4))) (row_six, customer_two)
   \<and> eligible 1 2 (activeSurveyIds (tracked_as (JInt 4))) (row_eight, customer_one)
   \<and> ranks_before (row_six, customer_two) (row_eight, customer_one)
   \<and> claimed_before (row_six, customer_two) (row_eight, customer_one)
   \<and> getNextSurveyResponse (Inr sample_db) 1 2 all_in_flight = Inr None
   \<and> \<not> list_ex (\<lambda>r. eligible 1 2 (activeSurveyIds all_in_flight) r \<and> \<not> row_locked sample_db r)
          (joined_rows sample_db)"
proof -
  have a: "(1::int) \<le> 1" and b: "(1::int) \<le> 2" by simp_all
  note t = getNextSurveyResponse_claims_best [OF a b, of sample_db "tracked_as (JInt 4)"]
  note n = getNextSurveyResponse_claims_best [OF a b, of sample_db all_in_flight]
  have "\<not> list_ex (\<lambda>r. eligible 1 2 (activeSurveyIds all_in_flight) r \<and> \<not> row_locked sample_db r)
          (joined_rows sample_db)"
    using n sample_none by blast
  then show ?thesis using t a b sample_claim sample_facts sample_none by blast
qed

text \<open>
  C7 as stated fails in two ways. With row 6 locked by another transaction the method
  returns row 8 (tier 2), although row 6 is eligible and of tier 1. With the undated row
  12 in the backlog the method returns row 12, although the eligible row 6 is of the same
  tier and has a \<open>created_at\<close>, so row 12 is not the most recent of its tier.
\<close>

theorem getNextSurveyResponse_not_best_of_eligible:
  "getNextSurveyResponse (Inr locked_db) 1 2 (tracked_as (JInt 4))
     = Inr (Some (row_eight, customer_one))
   \<and> (row_six, customer_two) \<in> set (joined_rows locked_db)
   \<and> eligible 1 2 (activeSurveyIds (tracked_as (JInt 4))) (row_six, customer_two)
   \<and> \<not> claimed_before (row_eight, customer_one) (row_six, customer_two)
   \<and> getNextSurveyResponse (Inr undated_db) 1 2 (tracked_as (JInt 4))
       = Inr (Some (row_twelve, customer_one))
   \<and> (row_six, customer_two) \<in> set (joined_rows undated_db)
   \<and> \<not> claimed_before (row_twelve, customer_one) (row_six, customer_two)"
  by code_simp

section \<open>Shard monitoring\<close>





section \<open>The exclusion list\<close>




end
